theory Spec2Isabelle
  imports Main
begin

section \<open>JavaScript strings\<close>

text \<open>
  Strings of the server are modelled as \<^typ>\<open>string\<close>, one \<^typ>\<open>char\<close> per code unit,
  for the code units below 256. The regular expression class \<open>\D\<close> is every code unit
  outside \<open>0\<close>..\<open>9\<close>; \<open>String.prototype.trim\<close> removes the white space code units
  from both ends (below 256 these are tab, line feed, vertical tab, form feed, carriage
  return, space and the no-break space).
\<close>

definition isDigit :: "char \<Rightarrow> bool" where
  "isDigit c = (c \<in> set ''0123456789'')"

definition isSpace :: "char \<Rightarrow> bool" where
  "isSpace c = (c \<in> set [CHR 0x09, CHR 0x0A, CHR 0x0B, CHR 0x0C, CHR 0x0D, CHR 0x20, CHR 0xA0])"

text \<open>\<open>s.replace(/\D/g, '')\<close>\<close>

definition getDigits :: "string \<Rightarrow> string" where
  "getDigits s = filter isDigit s"

text \<open>\<open>s.trim()\<close>\<close>

definition trim :: "string \<Rightarrow> string" where
  "trim s = rev (dropWhile isSpace (rev (dropWhile isSpace s)))"

text \<open>\<open>s.startsWith(p)\<close> and \<open>s.slice(k)\<close> for \<open>k \<ge> 0\<close>\<close>

definition startsWith :: "string \<Rightarrow> string \<Rightarrow> bool" where
  "startsWith s p = (take (length p) s = p)"

definition slice :: "string \<Rightarrow> nat \<Rightarrow> string" where
  "slice s k = drop k s"

section \<open>Phone normalization\<close>

text \<open>
  \<^verbatim>\<open>
  function normalizeTZ(raw) {
    let n = String(raw || '').replace(/\D/g, '');
    if (!n) return null;
    if (n.startsWith('00')) n = n.slice(2);
    if (n.startsWith('0')) n = '255' + n.slice(1);
    if (!n.startsWith('255') && n.length === 9) n = '255' + n;
    return n;
  }
  \<close>
  The argument is a string or \<open>null\<close>/\<open>undefined\<close> (\<open>None\<close>); the result is a string or
  \<open>null\<close> (\<open>None\<close>). \<open>raw || ''\<close> is \<open>''\<close> for \<open>null\<close> and for the empty string, and
  \<open>raw\<close> otherwise.
\<close>

definition normalizeTZ :: "string option \<Rightarrow> string option" where
  "normalizeTZ raw =
     (let n = getDigits (case raw of None \<Rightarrow> [] | Some s \<Rightarrow> s) in
      if n = [] then None
      else
        let n = (if startsWith n ''00'' then slice n 2 else n);
            n = (if startsWith n ''0'' then ''255'' @ slice n 1 else n);
            n = (if \<not> startsWith n ''255'' \<and> length n = 9 then ''255'' @ n else n)
        in Some n)"

text \<open>
  The algorithm in the words of the specification, step by step on the digit string:
  strip the non-digits; drop two leading zeros; replace a leading zero with the country
  calling code; prepend the country calling code to a nine-digit number that lacks it;
  the result is invalid when the input yields no digits.
\<close>

definition country_code :: string where
  "country_code = ''255''"

fun drop_international :: "string \<Rightarrow> string" where
  "drop_international (a # b # ds) = (if a = CHR ''0'' \<and> b = CHR ''0'' then ds else a # b # ds)"
| "drop_international ds = ds"

fun replace_leading_zero :: "string \<Rightarrow> string" where
  "replace_leading_zero (a # ds) = (if a = CHR ''0'' then country_code @ ds else a # ds)"
| "replace_leading_zero [] = []"

definition prepend_if_national :: "string \<Rightarrow> string" where
  "prepend_if_national ds =
     (if length ds = 9 \<and> take 3 ds \<noteq> country_code then country_code @ ds else ds)"

definition normalize_spec :: "string \<Rightarrow> string option" where
  "normalize_spec x =
     (if list_all (\<lambda>c. \<not> isDigit c) x then None
      else Some (prepend_if_national (replace_leading_zero (drop_international (filter isDigit x)))))"

section \<open>Further string operations used by the CSV sniffer\<close>

text \<open>
  Case-insensitive regular expressions (\<open>/phone/i\<close>, \<open>/^name(s)?$/i\<close>) compare letters
  after folding \<open>A\<close>..\<open>Z\<close> to \<open>a\<close>..\<open>z\<close>.
\<close>

definition lower :: "char \<Rightarrow> char" where
  "lower c =
     (case map_of (zip ''ABCDEFGHIJKLMNOPQRSTUVWXYZ'' ''abcdefghijklmnopqrstuvwxyz'') c of
        Some d \<Rightarrow> d
      | None \<Rightarrow> c)"

text \<open>\<open>/phone/i.test(k)\<close>; the first alternative \<open>/^phone(s)?$/i\<close> of the source is subsumed.\<close>

definition test_phone :: "string \<Rightarrow> bool" where
  "test_phone k =
     list_ex (\<lambda>i. startsWith (drop i (map lower k)) ''phone'') [0..<Suc (length k)]"

text \<open>\<open>/^name(s)?$/i.test(k)\<close>\<close>

definition test_name :: "string \<Rightarrow> bool" where
  "test_name k = (map lower k = ''name'' \<or> map lower k = ''names'')"

text \<open>\<open>s.split(',')\<close> and \<open>parts.join(',')\<close>\<close>

fun split_comma :: "string \<Rightarrow> string list" where
  "split_comma [] = [[]]"
| "split_comma (c # cs) =
     (if c = CHR '','' then [] # split_comma cs
      else (case split_comma cs of p # ps \<Rightarrow> (c # p) # ps | [] \<Rightarrow> [[c]]))"

fun join_comma :: "string list \<Rightarrow> string" where
  "join_comma [] = []"
| "join_comma [p] = p"
| "join_comma (p # ps) = p @ CHR '','' # join_comma ps"

section \<open>Contact store\<close>

text \<open>
  \<^verbatim>\<open>
  const contactSetSchema = new mongoose.Schema({
      name: { type: String, required: true, unique: true, trim: true },
      contacts: [ { name: { type: String, default: '' },
                    phone: { type: String, required: true, trim: true } } ],
    }, { timestamps: true });
  \<close>
  The collection is a list of documents. The schema's \<open>trim\<close> setter on the set name is
  applied when a document is constructed, when its name is assigned, and when a query
  filter on the name is cast; \<open>required\<close> and \<open>unique\<close> are checked by \<open>save\<close>, whose
  failure is the exception the handlers answer with status 500.
\<close>

record contact =
  phone :: string
  name :: string

record contact_set =
  set_name :: string
  contacts :: "contact list"

type_synonym store = "contact_set list"

text \<open>\<open>ContactSet.findOne({ name: q })\<close>: the first document with that name, or \<open>null\<close>.\<close>

definition findOne :: "store \<Rightarrow> string \<Rightarrow> contact_set option" where
  "findOne db q = find (\<lambda>s. set_name s = trim q) db"

text \<open>\<open>new ContactSet({ name: n, contacts: [] })\<close>\<close>

definition new_ContactSet :: "string \<Rightarrow> contact_set" where
  "new_ContactSet n = \<lparr>set_name = trim n, contacts = []\<rparr>"

text \<open>
  A handler's \<open>let set = await ContactSet.findOne(...); if (!set) set = new ContactSet(...)\<close>:
  the document together with where it came from (\<open>None\<close>: \<open>set.isNew\<close>; \<open>Some k\<close>: loaded
  from the stored document named \<open>k\<close>).
\<close>

definition findOrNew :: "store \<Rightarrow> string \<Rightarrow> string option \<times> contact_set" where
  "findOrNew db q =
     (case findOne db q of
        None \<Rightarrow> (None, new_ContactSet q)
      | Some s \<Rightarrow> (Some (set_name s), s))"

fun replace_first :: "string \<Rightarrow> contact_set \<Rightarrow> store \<Rightarrow> store" where
  "replace_first k s [] = []"
| "replace_first k s (t # ts) =
     (if set_name t = k then s # ts else t # replace_first k s ts)"

text \<open>
  \<open>set.save()\<close>: \<open>None\<close> when validation (\<open>required\<close>) or the unique index rejects the
  document; otherwise a new document is inserted and a loaded one is written back in place.
\<close>

definition save :: "store \<Rightarrow> string option \<Rightarrow> contact_set \<Rightarrow> store option" where
  "save db origin s =
     (if set_name s = [] then None
      else case origin of
        None \<Rightarrow>
          (if set_name s \<in> set (map set_name db) then None else Some (db @ [s]))
      | Some k \<Rightarrow>
          (if set_name s \<noteq> k \<and> set_name s \<in> set (map set_name db) then None
           else Some (replace_first k s db)))"

section \<open>HTTP responses\<close>

record progress =
  total :: nat
  sent :: nat
  failed :: nat

datatype jval =
    JStr string
  | JNum nat
  | JContact contact
  | JContacts "contact list"
  | JProgress progress

text \<open>\<open>res.status(code).json({ ... })\<close>: the status and the fields of the JSON body.\<close>

record response =
  status :: nat
  body :: "(string \<times> jval) list"

definition error_response :: "nat \<Rightarrow> string \<Rightarrow> response" where
  "error_response code msg = \<lparr>status = code, body = [(''error'', JStr msg)]\<rparr>"

definition ok_response :: "(string \<times> jval) list \<Rightarrow> response" where
  "ok_response kvs = \<lparr>status = 200, body = kvs\<rparr>"

definition has_field :: "response \<Rightarrow> string \<Rightarrow> bool" where
  "has_field r k = (k \<in> set (map fst (body r)))"

definition field :: "response \<Rightarrow> string \<Rightarrow> jval option" where
  "field r k = map_of (body r) k"

section \<open>CSV upload: \<open>POST /upload/:setName\<close>\<close>

text \<open>
  The CSV parser is an external library. A parsed row is the object it hands to the
  \<open>data\<close> callback: its keys (the header cells, already passed through \<open>cleanHeader\<close>)
  with their trimmed cell values, in the order in which \<open>Object.keys\<close> enumerates them.
\<close>

type_synonym row = "(string \<times> string) list"

text \<open>What the handler gets: no file, a stream that fails to parse, or the parsed rows.\<close>

datatype upload_file = NoFile | Unparsable | Rows "row list"

text \<open>\<open>v\<close> is truthy: neither \<open>null\<close> nor the empty string.\<close>

definition truthy :: "string option \<Rightarrow> bool" where
  "truthy v = (case v of None \<Rightarrow> False | Some s \<Rightarrow> s \<noteq> [])"

text \<open>
  \<open>cleanHeader = (h) => (h || '').replace(/\uFEFF/g, '').trim()\<close>; the byte order mark is
  not a code unit below 256, so only the trimming remains.
\<close>

definition cleanHeader :: "string \<Rightarrow> string" where
  "cleanHeader h = trim h"

text \<open>\<open>looksLikePhone = (v) => getDigits(v).length >= 7\<close>\<close>

definition looksLikePhone :: "string \<Rightarrow> bool" where
  "looksLikePhone v = (7 \<le> length (getDigits v))"

text \<open>
  The \<open>state\<close> object of the parse (\<open>keys_normalized\<close> is its \<open>_normalized\<close> flag): the
  header keys are examined on the first row only.
\<close>

record sniff =
  keys_normalized :: bool
  keys :: "string list"
  nkeys :: "string list"
  phoneKey :: "string option"
  nameKey :: "string option"

definition initial_sniff :: sniff where
  "initial_sniff = \<lparr>keys_normalized = False, keys = [], nkeys = [], phoneKey = None, nameKey = None\<rparr>"

text \<open>\<open>state.keys[state.nkeys.findIndex(test)] ?? null\<close>\<close>

definition key_where :: "(string \<Rightarrow> bool) \<Rightarrow> string list \<Rightarrow> string list \<Rightarrow> string option" where
  "key_where test ks nks = map_option fst (find (\<lambda>(k, nk). test nk) (zip ks nks))"

definition normalize_keys :: "row \<Rightarrow> sniff \<Rightarrow> sniff" where
  "normalize_keys row st =
     (if keys_normalized st then st
      else
        let ks = map fst row; nks = map cleanHeader ks
        in \<lparr>keys_normalized = True, keys = ks, nkeys = nks,
            phoneKey = key_where test_phone ks nks,
            nameKey = key_where test_name ks nks\<rparr>)"

text \<open>\<open>state.key && row[state.key] != null\<close>, giving \<open>row[state.key]\<close>\<close>

definition column :: "row \<Rightarrow> string option \<Rightarrow> string option" where
  "column row key = (case key of None \<Rightarrow> None | Some k \<Rightarrow> if k = [] then None else map_of row k)"

text \<open>
  The candidate phone and the name parsed along with it, steps 1 to 3 of \<open>extractFromRow\<close>:
  the explicit phone column; else the first value that looks like a phone; else, for a row
  with one non-blank cell, the text after its last comma.
\<close>

definition candidate :: "row \<Rightarrow> sniff \<Rightarrow> string option \<times> string" where
  "candidate row st =
     (let rawPhone = column row (phoneKey st);
          rawPhone =
            (if truthy rawPhone then rawPhone
             else case find looksLikePhone (map snd row) of
                    Some v \<Rightarrow> Some v
                  | None \<Rightarrow> rawPhone)
      in
        if truthy rawPhone then (rawPhone, [])
        else
          (case filter (\<lambda>v. trim v \<noteq> []) (map snd row) of
             [v] \<Rightarrow>
               (let parts = split_comma v in
                if 2 \<le> length parts \<and> looksLikePhone (last parts)
                then (Some (last parts), trim (join_comma (butlast parts)))
                else (rawPhone, []))
           | _ \<Rightarrow> (rawPhone, [])))"

text \<open>Step 4: the name column overrides the parsed name; else the first non-phone cell.\<close>

definition pick_name :: "row \<Rightarrow> sniff \<Rightarrow> string \<Rightarrow> string" where
  "pick_name row st rawName =
     (case column row (nameKey st) of
        Some v \<Rightarrow> trim v
      | None \<Rightarrow>
          if rawName \<noteq> [] then rawName
          else case find (\<lambda>v. \<not> looksLikePhone v \<and> trim v \<noteq> []) (map snd row) of
                 Some v \<Rightarrow> trim v
               | None \<Rightarrow> rawName)"

text \<open>
  \<open>extractFromRow(row, state)\<close>: the contact of the row, or \<open>null\<close> when
  \<open>!normalized\<close> (\<open>null\<close> or the empty string); the state is returned updated.
\<close>

definition extractFromRow :: "row \<Rightarrow> sniff \<Rightarrow> contact option \<times> sniff" where
  "extractFromRow row st0 =
     (let st = normalize_keys row st0;
          (rawPhone, rawName0) = candidate row st;
          rawName = pick_name row st rawName0;
          normalized = normalizeTZ rawPhone
      in case normalized of
           None \<Rightarrow> (None, st)
         | Some p \<Rightarrow> if p = [] then (None, st) else (Some \<lparr>phone = p, name = rawName\<rparr>, st))"

text \<open>The \<open>data\<close> callback over the rows of the file, collecting \<open>newContacts\<close>.\<close>

fun parse_rows :: "row list \<Rightarrow> sniff \<Rightarrow> contact list" where
  "parse_rows [] st = []"
| "parse_rows (r # rs) st =
     (case extractFromRow r st of
        (None, st') \<Rightarrow> parse_rows rs st'
      | (Some c, st') \<Rightarrow> c # parse_rows rs st')"

text \<open>
  \<^verbatim>\<open>
  const existingPhones = new Set(set.contacts.map((c) => c.phone));
  let added = 0;
  for (const c of newContacts) {
    if (!existingPhones.has(c.phone)) {
      set.contacts.push({ phone: c.phone, name: c.name || '' });
      existingPhones.add(c.phone);
      added++;
    }
  }
  \<close>
\<close>

fun push_new :: "contact list \<Rightarrow> contact list \<times> string set \<times> nat \<Rightarrow> contact list \<times> string set \<times> nat" where
  "push_new [] acc = acc"
| "push_new (c # cs) (stored, existingPhones, added) =
     (if phone c \<notin> existingPhones
      then push_new cs (stored @ [\<lparr>phone = phone c, name = name c\<rparr>],
                        insert (phone c) existingPhones, added + 1)
      else push_new cs (stored, existingPhones, added))"

definition upload :: "store \<Rightarrow> string \<Rightarrow> upload_file \<Rightarrow> response \<times> store" where
  "upload db setName file =
     (case file of
        NoFile \<Rightarrow> (error_response 400 ''No CSV file uploaded'', db)
      | Unparsable \<Rightarrow> (error_response 400 ''Failed to parse CSV'', db)
      | Rows rows \<Rightarrow>
          (let newContacts = parse_rows rows initial_sniff in
           if newContacts = [] then
             (error_response 400 ''No valid phone numbers found in CSV'', db)
           else
             let (origin, s) = findOrNew db setName;
                 (stored, existingPhones, added) =
                    push_new newContacts (contacts s, set (map phone (contacts s)), 0)
             in
               if added = 0 \<and> origin = None then
                 (error_response 400 ''No new numbers to add (all duplicates or invalid)'', db)
               else
                 (case save db origin (s\<lparr>contacts := stored\<rparr>) of
                    None \<Rightarrow> (error_response 500 ''Failed to save contacts'', db)
                  | Some db' \<Rightarrow>
                      (ok_response [(''message'', JStr ''Contacts added''),
                                    (''added'', JNum added),
                                    (''count'', JNum (length stored))], db'))))"

section \<open>Set and contact management\<close>

text \<open>
  \<open>POST /contacts/:setName/add\<close> with body \<open>{ name = '', phone }\<close>; a field that is
  absent from the body is \<open>None\<close>. The request is refused with status 400 when
  \<open>!normalized\<close>: the result of \<open>normalizeTZ\<close> is \<open>null\<close> or the empty string.
\<close>

definition add_contact :: "store \<Rightarrow> string \<Rightarrow> string option \<Rightarrow> string option \<Rightarrow> response \<times> store" where
  "add_contact db setName name_field phone_field =
     (case normalizeTZ phone_field of
        None \<Rightarrow> (error_response 400 ''Invalid phone'', db)
      | Some normalized \<Rightarrow>
          if normalized = [] then (error_response 400 ''Invalid phone'', db)
          else
            let (origin, s) = findOrNew db setName in
            if list_ex (\<lambda>c. phone c = normalized) (contacts s) then
              (error_response 409 ''Phone already exists in this set'', db)
            else
              let c = \<lparr>phone = normalized,
                       name = (case name_field of None \<Rightarrow> [] | Some n \<Rightarrow> n)\<rparr>;
                  stored = contacts s @ [c]
              in (case save db origin (s\<lparr>contacts := stored\<rparr>) of
                    None \<Rightarrow> (error_response 500 ''Failed to add contact'', db)
                  | Some db' \<Rightarrow>
                      (ok_response [(''message'', JStr ''Contact added''),
                                    (''contact'', JContact c),
                                    (''count'', JNum (length stored))], db')))"

text \<open>\<open>PATCH /contacts/:setName/rename\<close> with body \<open>{ newName }\<close>\<close>

definition rename_set :: "store \<Rightarrow> string \<Rightarrow> string option \<Rightarrow> response \<times> store" where
  "rename_set db setName newName =
     (case newName of
        None \<Rightarrow> (error_response 400 ''newName is required'', db)
      | Some nn \<Rightarrow>
          if nn = [] \<or> trim nn = [] then (error_response 400 ''newName is required'', db)
          else
            (case findOne db (trim nn) of
               Some existing \<Rightarrow> (error_response 409 ''Target set name already exists'', db)
             | None \<Rightarrow>
                 (case findOne db setName of
                    None \<Rightarrow> (error_response 404 ''Set not found'', db)
                  | Some s \<Rightarrow>
                      let s' = s\<lparr>set_name := trim (trim nn)\<rparr> in
                      (case save db (Some (set_name s)) s' of
                         None \<Rightarrow> (error_response 500 ''Failed to rename set'', db)
                       | Some db' \<Rightarrow>
                           (ok_response [(''message'', JStr ''Set renamed''),
                                         (''name'', JStr (set_name s'))], db')))))"

section \<open>Saving directory contacts: \<open>POST /contacts/google/save\<close>\<close>

text \<open>
  \<^verbatim>\<open>
  const existingPhones = new Set(set.contacts.map((c) => c.phone));
  for (let phone of numbers) {
    const normalized = normalizeTZ(phone);
    if (normalized && !existingPhones.has(normalized)) {
      set.contacts.push({ phone: normalized });
      existingPhones.add(normalized);
    }
  }
  \<close>
  A pushed contact has no name; the schema's default gives it the empty one.
\<close>

fun push_numbers :: "string option list \<Rightarrow> contact list \<times> string set \<Rightarrow> contact list \<times> string set" where
  "push_numbers [] acc = acc"
| "push_numbers (raw # raws) (stored, existingPhones) =
     (case normalizeTZ raw of
        None \<Rightarrow> push_numbers raws (stored, existingPhones)
      | Some p \<Rightarrow>
          if p \<noteq> [] \<and> p \<notin> existingPhones
          then push_numbers raws (stored @ [\<lparr>phone = p, name = []\<rparr>], insert p existingPhones)
          else push_numbers raws (stored, existingPhones))"

text \<open>
  The body is \<open>{ setName, numbers }\<close>; \<open>numbers\<close> is \<open>None\<close> when it is not an array, and an
  element of the array is a string or \<open>null\<close>.
\<close>

definition google_save :: "store \<Rightarrow> string option \<Rightarrow> string option list option \<Rightarrow> response \<times> store" where
  "google_save db setName numbers =
     (case numbers of
        None \<Rightarrow> (error_response 400 ''Invalid input'', db)
      | Some nums \<Rightarrow>
          (case setName of
             None \<Rightarrow> (error_response 400 ''Invalid input'', db)
           | Some sn \<Rightarrow>
               if sn = [] then (error_response 400 ''Invalid input'', db)
               else
                 let (origin, s) = findOrNew db sn;
                     (stored, existingPhones) =
                        push_numbers nums (contacts s, set (map phone (contacts s)))
                 in (case save db origin (s\<lparr>contacts := stored\<rparr>) of
                       None \<Rightarrow> (error_response 500 ''Failed to save Google contacts'', db)
                     | Some db' \<Rightarrow>
                         (ok_response [(''message'', JStr ''Saved''),
                                       (''count'', JNum (length stored)),
                                       (''contacts'', JContacts stored)], db'))))"

section \<open>Messaging session, broadcast and dashboard channel\<close>

datatype conn_status = Disconnected | Connected

text \<open>The two log lines of the send loop, \<open>Sent to <number>\<close> and \<open>Failed to send to <number>\<close>.\<close>

datatype log_line = Sent_to string | Failed_to_send_to string

text \<open>
  An entry of \<open>history.json\<close>: the counters \<open>total\<close>, \<open>sent\<close>, \<open>failed\<close> together with
  \<open>date\<close>, \<open>setName\<close> and \<open>message\<close> (\<open>None\<close> when the request had none).
\<close>

record run = progress +
  h_date :: string
  h_setName :: string
  h_message :: "string option"

text \<open>The events of the dashboard channel.\<close>

datatype event =
    Status conn_status
  | Qr "string option"
  | Progress progress
  | Logs "log_line list"

text \<open>
  The module-level variables \<open>sock\<close>, \<open>latestQR\<close>, \<open>connectionStatus\<close>, \<open>sendingProgress\<close>
  and \<open>sendingLogs\<close>, and the file \<open>history.json\<close> (\<open>None\<close>: missing or blank; otherwise it holds the
  list that \<open>saveHistory\<close> wrote). The
  messaging client is an external library: \<open>'w\<close> is the state of its socket, and
  \<open>sendMessage w jid text\<close> tells whether the call resolves (\<open>True\<close>) or throws, with the
  socket's next state. Two further fields record what the server does to the outside, in
  order: \<open>emitted\<close>, the events of \<open>io.emit\<close>, and \<open>wire\<close>, the calls of
  \<open>sock.sendMessage\<close> with their \<open>jid\<close> and text.
\<close>

record 'w server =
  sock :: "'w option"
  latestQR :: "string option"
  connectionStatus :: conn_status
  sendingProgress :: progress
  sendingLogs :: "log_line list"
  history_json :: "run list option"
  emitted :: "event list"
  wire :: "(string \<times> string) list"

definition initial_server :: "'w server" where
  "initial_server =
     \<lparr>sock = None, latestQR = None, connectionStatus = Disconnected,
      sendingProgress = \<lparr>total = 0, sent = 0, failed = 0\<rparr>, sendingLogs = [],
      history_json = None, emitted = [], wire = []\<rparr>"

definition loadHistory :: "'w server \<Rightarrow> run list" where
  "loadHistory s = (case history_json s of None \<Rightarrow> [] | Some h \<Rightarrow> h)"

definition saveHistory :: "run list \<Rightarrow> 'w server \<Rightarrow> 'w server" where
  "saveHistory h s = s\<lparr>history_json := Some h\<rparr>"

definition updateStatus :: "conn_status \<Rightarrow> 'w server \<Rightarrow> 'w server" where
  "updateStatus st s = s\<lparr>connectionStatus := st, emitted := emitted s @ [Status st]\<rparr>"

definition updateQR :: "string option \<Rightarrow> 'w server \<Rightarrow> 'w server" where
  "updateQR q s = s\<lparr>latestQR := q, emitted := emitted s @ [Qr q]\<rparr>"

text \<open>
  One iteration of the send loop:
  \<^verbatim>\<open>
  const jid = `${number}@s.whatsapp.net`;
  try {
    await sock.sendMessage(jid, { text: message });
    sendingProgress.sent++;
    sendingLogs.push(`Sent to ${number}`);
  } catch (err) {
    sendingProgress.failed++;
    sendingLogs.push(`Failed to send to ${number}`);
  }
  io.emit('progress', sendingProgress);
  io.emit('logs', sendingLogs);
  \<close>
  With no socket the call itself throws, which the \<open>catch\<close> counts as a failure.
\<close>

definition attempt :: "('w \<Rightarrow> string \<Rightarrow> string \<Rightarrow> bool \<times> 'w) \<Rightarrow> string \<Rightarrow> string \<Rightarrow> 'w server \<Rightarrow> 'w server" where
  "attempt sendMessage message number s =
     (let jid = number @ ''@s.whatsapp.net'';
          (ok, sock', wire') =
            (case sock s of
               None \<Rightarrow> (False, None, wire s)
             | Some w \<Rightarrow>
                 (let (ok, w') = sendMessage w jid message
                  in (ok, Some w', wire s @ [(jid, message)])));
          p = sendingProgress s;
          p' = (if ok then p\<lparr>sent := sent p + 1\<rparr> else p\<lparr>failed := failed p + 1\<rparr>);
          logs' = sendingLogs s @ [if ok then Sent_to number else Failed_to_send_to number]
      in s\<lparr>sock := sock', wire := wire', sendingProgress := p', sendingLogs := logs',
            emitted := emitted s @ [Progress p', Logs logs']\<rparr>)"

text \<open>\<open>for (const number of contacts) { ... }\<close>\<close>

fun send_loop :: "('w \<Rightarrow> string \<Rightarrow> string \<Rightarrow> bool \<times> 'w) \<Rightarrow> string \<Rightarrow> string list \<Rightarrow> 'w server \<Rightarrow> 'w server" where
  "send_loop sendMessage message [] s = s"
| "send_loop sendMessage message (number # numbers) s =
     send_loop sendMessage message numbers (attempt sendMessage message number s)"

text \<open>
  The reset before the loop: \<open>sendingProgress = { total: contacts.length, sent: 0, failed: 0 }\<close>,
  \<open>sendingLogs = []\<close>, \<open>io.emit('progress', sendingProgress)\<close>.
\<close>

definition reset_progress :: "string list \<Rightarrow> 'w server \<Rightarrow> 'w server" where
  "reset_progress numbers s =
     (let p = \<lparr>total = length numbers, sent = 0, failed = 0\<rparr>
      in s\<lparr>sendingProgress := p, sendingLogs := [], emitted := emitted s @ [Progress p]\<rparr>)"

text \<open>
  \<open>POST /send/:setName\<close> with body \<open>{ message }\<close>, as the later version of the server has
  it (the file with \<open>normalizeTZ\<close>), run without another request in between;
  \<open>now\<close> is the formatted time of the moment the history entry is written. The pause
  between two attempts changes no variable and is left out.
\<close>

definition send :: "('w \<Rightarrow> string \<Rightarrow> string \<Rightarrow> bool \<times> 'w) \<Rightarrow> string \<Rightarrow> store \<Rightarrow> string \<Rightarrow> string option \<Rightarrow> 'w server \<Rightarrow> response \<times> 'w server" where
  "send sendMessage now db setName message s =
     (case message of
        None \<Rightarrow> (error_response 400 ''Message is required'', s)
      | Some m \<Rightarrow>
          if m = [] \<or> trim m = [] then (error_response 400 ''Message is required'', s)
          else
            (case findOne db setName of
               None \<Rightarrow> (error_response 404 ''Set not found'', s)
             | Some cs \<Rightarrow>
                 let numbers = map phone (contacts cs) in
                 if sock s = None \<or> connectionStatus s \<noteq> Connected then
                   (error_response 400 ''WhatsApp not connected'', s)
                 else
                   let s1 = reset_progress numbers s;
                       s2 = send_loop sendMessage m numbers s1;
                       p = sendingProgress s2;
                       entry = \<lparr>total = total p, sent = sent p, failed = failed p,
                                h_date = now, h_setName = setName, h_message = Some m\<rparr>;
                       s3 = saveHistory (entry # loadHistory s2) s2
                   in (ok_response [(''message'', JStr ''Done''),
                                    (''stats'', JProgress (sendingProgress s3))], s3)))"

text \<open>
  The \<open>connection.update\<close> callback of \<open>connectWA\<close>. The update carries \<open>qr\<close>,
  \<open>connection\<close> and whether \<open>lastDisconnect\<close> reports a logout; the result also tells
  whether a reconnection is scheduled.
\<close>

datatype connection = Open | Close | Connecting

record update =
  qr :: "string option"
  connection :: "connection option"
  loggedOut :: bool

definition connection_update :: "update \<Rightarrow> 'w server \<Rightarrow> 'w server \<times> bool" where
  "connection_update u s =
     (let s = (if truthy (qr u) then updateStatus Disconnected (updateQR (qr u) s) else s);
          s = (if connection u = Some Open then updateStatus Connected (updateQR None s) else s)
      in if connection u = Some Close
         then (updateStatus Disconnected s, \<not> loggedOut u)
         else (s, False))"

text \<open>
  \<^verbatim>\<open>
  io.on('connection', (socket) => {
    socket.emit('status', connectionStatus);
    socket.emit('qr', latestQR);
    socket.emit('progress', sendingProgress);
    socket.emit('logs', sendingLogs);
  });
  \<close>
  The events sent to the observer that has just connected.
\<close>

definition on_connection :: "'w server \<Rightarrow> event list" where
  "on_connection s =
     [Status (connectionStatus s), Qr (latestQR s),
      Progress (sendingProgress s), Logs (sendingLogs s)]"

section \<open>The earlier server, \<open>src/backend/server.js\<close>\<close>

text \<open>
  The repository holds an earlier version of the server whose handlers for
  \<open>POST /send/:setName\<close> and \<open>POST /contacts/google/save\<close> differ. Its schema is
  \<^verbatim>\<open>
  const contactSchema = new mongoose.Schema({ phone: { type: String }, name: String });
  const ContactSetSchema = new mongoose.Schema({
      name: { type: String, required: true, unique: true },
      contacts: [contactSchema], createdAt: { type: Date, default: Date.now } });
  \<close>
  so a set name is stored and queried as given (no \<open>trim\<close>). A contact pushed without a
  name has none; it is modelled with the empty name. These handlers have no \<open>try\<close> around
  their bodies: when one throws, no response is sent, which is the response \<open>None\<close>.
\<close>

definition findOne_exact :: "store \<Rightarrow> string \<Rightarrow> contact_set option" where
  "findOne_exact db q = find (\<lambda>s. set_name s = q) db"

text \<open>\<open>s.replace(pat, '')\<close> for a non-empty string \<open>pat\<close>: its first occurrence is removed.\<close>

fun remove_first :: "string \<Rightarrow> string \<Rightarrow> string" where
  "remove_first pat [] = []"
| "remove_first pat (c # cs) =
     (if startsWith (c # cs) pat then slice (c # cs) (length pat)
      else c # remove_first pat cs)"

text \<open>
  \<^verbatim>\<open>
  app.post("/send/:setName", async (req, res) => {
      const { message } = req.body;
      const set = await ContactSet.findOne({ name: req.params.setName });
      if (!set) return res.status(404).json({ error: "Set not found" });
      const contacts = set.contacts.map(c => c.phone);
      if (!sock || connectionStatus !== "connected") {
          return res.status(400).json({ error: "WhatsApp not connected" });
      }
      sendingProgress = { total: contacts.length, sent: 0, failed: 0 };
      sendingLogs = [];
      io.emit("progress", sendingProgress);
      for (let number of contacts) {
          let personalized = message.replace("{{name}}", "");
          try {
              await sock.sendMessage(number + "@s.whatsapp.net", { text: personalized });
              sendingProgress.sent++;
              sendingLogs.push(`Sent to ${number}`);
          } catch (err) {
              sendingProgress.failed++;
              sendingLogs.push(`Failed to send to ${number}`);
          }
          io.emit("progress", sendingProgress);
          io.emit("logs", sendingLogs);
          await new Promise(r => setTimeout(r, 1000 + Math.random() * 2000));
      }
      const history = loadHistory();
      history.unshift({ date: ..., setName: req.params.setName, message,
          total: sendingProgress.total, sent: sendingProgress.sent, failed: sendingProgress.failed });
      saveHistory(history);
      res.json({ message: "Messages sent", stats: sendingProgress });
  });
  \<close>
  There is no check of the message. When the body has no \<open>message\<close> and the set has a
  contact, \<open>message.replace\<close> throws in the first iteration, outside the \<open>try\<close>: the
  counters have been reset, nothing is sent and no response is given.
\<close>

definition send_server_js :: "('w \<Rightarrow> string \<Rightarrow> string \<Rightarrow> bool \<times> 'w) \<Rightarrow> string \<Rightarrow> store \<Rightarrow> string \<Rightarrow> string option \<Rightarrow> 'w server \<Rightarrow> response option \<times> 'w server" where
  "send_server_js sendMessage now db setName message s =
     (case findOne_exact db setName of
        None \<Rightarrow> (Some (error_response 404 ''Set not found''), s)
      | Some cs \<Rightarrow>
          let numbers = map phone (contacts cs) in
          if sock s = None \<or> connectionStatus s \<noteq> Connected then
            (Some (error_response 400 ''WhatsApp not connected''), s)
          else
            let s1 = reset_progress numbers s in
            if message = None \<and> numbers \<noteq> [] then (None, s1)
            else
              let personalized =
                    (case message of None \<Rightarrow> [] | Some m \<Rightarrow> remove_first ''{{name}}'' m);
                  s2 = send_loop sendMessage personalized numbers s1;
                  p = sendingProgress s2;
                  entry = \<lparr>total = total p, sent = sent p, failed = failed p,
                           h_date = now, h_setName = setName, h_message = message\<rparr>;
                  s3 = saveHistory (entry # loadHistory s2) s2
              in (Some (ok_response [(''message'', JStr ''Messages sent''),
                                     (''stats'', JProgress (sendingProgress s3))]), s3))"

text \<open>
  \<^verbatim>\<open>
  const existingPhones = set.contacts.map(c => c.phone);
  for (let phone of numbers) {
      if (!existingPhones.includes(phone)) set.contacts.push({ phone });
  }
  \<close>
  \<open>existingPhones\<close> is computed once and not extended in the loop.
\<close>

fun push_raw :: "string list \<Rightarrow> string list \<Rightarrow> contact list \<Rightarrow> contact list" where
  "push_raw existingPhones [] stored = stored"
| "push_raw existingPhones (p # ps) stored =
     (if p \<notin> set existingPhones
      then push_raw existingPhones ps (stored @ [\<lparr>phone = p, name = []\<rparr>])
      else push_raw existingPhones ps stored)"

text \<open>
  \<^verbatim>\<open>
  app.post("/contacts/google/save", async (req, res) => {
      const { setName, numbers } = req.body;
      if (!Array.isArray(numbers) || !setName) {
          return res.status(400).json({ error: "Invalid input" });
      }
      let set = await ContactSet.findOne({ name: setName });
      if (!set) set = new ContactSet({ name: setName, contacts: [] });
      ... the loop above ...
      await set.save();
      res.json({ message: "Google contacts saved", count: set.contacts.length,
                 contacts: set.contacts });
  });
  \<close>
  \<open>numbers\<close> is \<open>None\<close> when it is not an array; the elements of the array are strings.
\<close>

definition google_save_server_js :: "store \<Rightarrow> string option \<Rightarrow> string list option \<Rightarrow> response option \<times> store" where
  "google_save_server_js db setName numbers =
     (case numbers of
        None \<Rightarrow> (Some (error_response 400 ''Invalid input''), db)
      | Some nums \<Rightarrow>
          (case setName of
             None \<Rightarrow> (Some (error_response 400 ''Invalid input''), db)
           | Some sn \<Rightarrow>
               if sn = [] then (Some (error_response 400 ''Invalid input''), db)
               else
                 let (origin, s) =
                       (case findOne_exact db sn of
                          None \<Rightarrow> (None, \<lparr>set_name = sn, contacts = []\<rparr>)
                        | Some t \<Rightarrow> (Some (set_name t), t));
                     stored = push_raw (map phone (contacts s)) nums (contacts s)
                 in (case save db origin (s\<lparr>contacts := stored\<rparr>) of
                       None \<Rightarrow> (None, db)
                     | Some db' \<Rightarrow>
                         (Some (ok_response [(''message'', JStr ''Google contacts saved''),
                                             (''count'', JNum (length stored)),
                                             (''contacts'', JContacts stored)]), db'))))"

section \<open>Notions used in the statements\<close>

text \<open>The name under which an event is emitted.\<close>

fun event_name :: "event \<Rightarrow> string" where
  "event_name (Status v) = ''status''"
| "event_name (Qr v) = ''qr''"
| "event_name (Progress v) = ''progress''"
| "event_name (Logs v) = ''logs''"

text \<open>The number a log line is about, and whether it reports a success.\<close>

fun log_number :: "log_line \<Rightarrow> string" where
  "log_number (Sent_to n) = n"
| "log_number (Failed_to_send_to n) = n"

fun is_sent :: "log_line \<Rightarrow> bool" where
  "is_sent (Sent_to n) = True"
| "is_sent (Failed_to_send_to n) = False"

text \<open>
  The outcomes of a sequence of \<open>sendMessage\<close> calls made one after the other on a socket
  in state \<open>w\<close>: \<open>True\<close> for a call that resolves, \<open>False\<close> for one that throws.
\<close>

fun outcomes :: "('w \<Rightarrow> string \<Rightarrow> string \<Rightarrow> bool \<times> 'w) \<Rightarrow> 'w \<Rightarrow> (string \<times> string) list \<Rightarrow> bool list" where
  "outcomes sendMessage w [] = []"
| "outcomes sendMessage w ((jid, text) # calls) =
     fst (sendMessage w jid text) # outcomes sendMessage (snd (sendMessage w jid text)) calls"

text \<open>The calls a broadcast of \<open>text\<close> to a list of contacts consists of, one per contact.\<close>

definition calls_for :: "string \<Rightarrow> contact list \<Rightarrow> (string \<times> string) list" where
  "calls_for text cs = map (\<lambda>c. (phone c @ ''@s.whatsapp.net'', text)) cs"

text \<open>The log line for a contact, given the outcome of the call made for it.\<close>

definition report :: "contact \<times> bool \<Rightarrow> log_line" where
  "report x = (if snd x then Sent_to (phone (fst x)) else Failed_to_send_to (phone (fst x)))"

text \<open>
  A socket whose state counts the calls made so far and whose second call throws, every
  other call resolving.
\<close>

definition second_call_throws :: "nat \<Rightarrow> string \<Rightarrow> string \<Rightarrow> bool \<times> nat" where
  "second_call_throws w jid text = (w \<noteq> 1, w + 1)"

text \<open>
  Example data: a store with one set of three contacts, an earlier entry of the history,
  and a server whose session is connected (the socket has made no call yet).
\<close>

definition three_contacts :: store where
  "three_contacts =
     [\<lparr>set_name = ''friends'',
       contacts = [\<lparr>phone = ''255700000001'', name = ''A''\<rparr>,
                   \<lparr>phone = ''255700000002'', name = ''B''\<rparr>,
                   \<lparr>phone = ''255700000003'', name = ''C''\<rparr>]\<rparr>]"

definition earlier_run :: run where
  "earlier_run = \<lparr>total = 1, sent = 1, failed = 0, h_date = ''2025-01-01 09:00:00'',
                   h_setName = ''family'', h_message = Some ''hi''\<rparr>"

definition connected_server :: "nat server" where
  "connected_server =
     initial_server\<lparr>sock := Some 0, connectionStatus := Connected,
                    history_json := Some [earlier_run]\<rparr>"

text \<open>
  The data model's invariants. A stored set name is non-empty and trimmed (the schema's
  \<open>required\<close> and \<open>trim\<close>); a stored phone is in normalized form, a fixed point of
  \<open>normalizeTZ\<close>.
\<close>

definition names_valid :: "store \<Rightarrow> bool" where
  "names_valid db = list_all (\<lambda>s. set_name s \<noteq> [] \<and> trim (set_name s) = set_name s) db"

definition phones_normalized :: "contact list \<Rightarrow> bool" where
  "phones_normalized cs = list_all (\<lambda>c. normalizeTZ (Some (phone c)) = Some (phone c)) cs"

text \<open>
  The phones a list of submitted numbers contributes: the non-empty results of
  \<open>normalizeTZ\<close> on its entries.
\<close>

definition valid_numbers :: "string option list \<Rightarrow> string set" where
  "valid_numbers nums = {p. p \<noteq> [] \<and> Some p \<in> set (map normalizeTZ nums)}"

text \<open>Example data: a store with two sets.\<close>

definition two_sets :: store where
  "two_sets =
     [\<lparr>set_name = ''friends'',
       contacts = [\<lparr>phone = ''255700000001'', name = ''A''\<rparr>]\<rparr>,
      \<lparr>set_name = ''family'',
       contacts = [\<lparr>phone = ''255700000002'', name = ''B''\<rparr>,
                   \<lparr>phone = ''255700000003'', name = ''C''\<rparr>]\<rparr>]"

section \<open>Properties of phone normalization\<close>

lemma getDigits_all: "list_all isDigit (getDigits s)"
  by (simp add: getDigits_def list_all_iff)

lemma getDigits_id: "list_all isDigit s \<Longrightarrow> getDigits s = s"
  by (simp add: getDigits_def list_all_iff)

lemma getDigits_empty_conv: "(getDigits x = []) = list_all (\<lambda>c. \<not> isDigit c) x"
  by (simp add: getDigits_def filter_empty_conv list_all_iff)

lemma digits_slice: "list_all isDigit n \<Longrightarrow> list_all isDigit (slice n k)"
  by (auto simp: slice_def list_all_iff dest: in_set_dropD)

lemma digits_255: "list_all isDigit n \<Longrightarrow> list_all isDigit (''255'' @ n)"
  by (simp add: isDigit_def)

text \<open>The three rewriting steps of the source are the three steps of the specification.\<close>

lemma drop_international_eq:
  "(if startsWith n ''00'' then slice n 2 else n) = drop_international n"
  by (cases n rule: drop_international.cases) (auto simp: startsWith_def slice_def)

lemma replace_leading_zero_eq:
  "(if startsWith n ''0'' then ''255'' @ slice n 1 else n) = replace_leading_zero n"
  by (cases n) (auto simp: startsWith_def slice_def country_code_def)

lemma prepend_if_national_eq:
  "(if \<not> startsWith n ''255'' \<and> length n = 9 then ''255'' @ n else n) = prepend_if_national n"
  by (simp add: startsWith_def prepend_if_national_def country_code_def numeral_3_eq_3)

lemma normalizeTZ_refines: "normalizeTZ (Some x) = normalize_spec x"
  unfolding normalizeTZ_def normalize_spec_def Let_def
    drop_international_eq replace_leading_zero_eq prepend_if_national_eq
  by (simp add: getDigits_empty_conv) (simp add: getDigits_def)

lemma normalizeTZ_None_iff: "(normalizeTZ (Some x) = None) = (getDigits x = [])"
  by (simp add: normalizeTZ_def Let_def)

text \<open>
  A result of \<open>normalizeTZ\<close> consists of digits, has no leading zero, and is not a bare
  nine-digit number.
\<close>

lemma normalizeTZ_digits:
  assumes "normalizeTZ raw = Some y"
  shows "list_all isDigit y"
proof -
  define d where "d = getDigits (case raw of None \<Rightarrow> [] | Some s \<Rightarrow> s)"
  define n1 where "n1 = (if startsWith d ''00'' then slice d 2 else d)"
  define n2 where "n2 = (if startsWith n1 ''0'' then ''255'' @ slice n1 1 else n1)"
  define n3 where "n3 = (if \<not> startsWith n2 ''255'' \<and> length n2 = 9 then ''255'' @ n2 else n2)"
  have "list_all isDigit d"
    by (simp add: d_def getDigits_all)
  then have "list_all isDigit n1"
    unfolding n1_def by (simp add: digits_slice)
  then have "list_all isDigit n2"
    unfolding n2_def using digits_255 [OF digits_slice] by simp
  then have "list_all isDigit n3"
    unfolding n3_def using digits_255 by simp
  moreover have "normalizeTZ raw = (if d = [] then None else Some n3)"
    unfolding normalizeTZ_def Let_def n3_def n2_def n1_def d_def ..
  ultimately show ?thesis
    using assms by (cases "d = []") simp_all
qed

lemma normalizeTZ_shape:
  assumes "normalizeTZ raw = Some y"
  shows "\<not> startsWith y ''0'' \<and> (startsWith y ''255'' \<or> length y \<noteq> 9)"
proof -
  define d where "d = getDigits (case raw of None \<Rightarrow> [] | Some s \<Rightarrow> s)"
  define n1 where "n1 = (if startsWith d ''00'' then slice d 2 else d)"
  define n2 where "n2 = (if startsWith n1 ''0'' then ''255'' @ slice n1 1 else n1)"
  define n3 where "n3 = (if \<not> startsWith n2 ''255'' \<and> length n2 = 9 then ''255'' @ n2 else n2)"
  have "\<not> startsWith n2 ''0''"
    unfolding n2_def by (simp add: startsWith_def)
  then have no_zero: "\<not> startsWith n3 ''0''"
    unfolding n3_def by (simp add: startsWith_def)
  have not_bare: "startsWith n3 ''255'' \<or> length n3 \<noteq> 9"
    unfolding n3_def by (simp add: startsWith_def)
  have "normalizeTZ raw = (if d = [] then None else Some n3)"
    unfolding normalizeTZ_def Let_def n3_def n2_def n1_def d_def ..
  with no_zero not_bare show ?thesis
    using assms by (cases "d = []") simp_all
qed

lemma normalizeTZ_fixed:
  assumes "list_all isDigit y" and "y \<noteq> []" and "\<not> startsWith y ''0''"
    and "startsWith y ''255'' \<or> length y \<noteq> 9"
  shows "normalizeTZ (Some y) = Some y"
proof -
  have "\<not> startsWith y ''00''"
    using assms(3) by (cases y rule: drop_international.cases) (auto simp: startsWith_def)
  then show ?thesis
    using assms by (auto simp: normalizeTZ_def getDigits_id)
qed

text \<open>Every non-empty result is a fixed point: this is the form in which phones are stored.\<close>

lemma normalizeTZ_result_fixed:
  assumes "normalizeTZ raw = Some y" and "y \<noteq> []"
  shows "normalizeTZ (Some y) = Some y"
  using normalizeTZ_fixed [of y] normalizeTZ_digits [OF assms(1)]
    normalizeTZ_shape [OF assms(1)] assms(2)
  by simp

lemma normalizeTZ_idem_unless_empty:
  assumes "normalizeTZ raw \<noteq> Some []"
  shows "normalizeTZ (normalizeTZ raw) = normalizeTZ raw"
proof (cases "normalizeTZ raw")
  case None
  then show ?thesis by (simp add: normalizeTZ_def getDigits_def)
next
  case (Some y)
  with assms have "y \<noteq> []" by simp
  with Some show ?thesis by (simp add: normalizeTZ_result_fixed)
qed

text \<open>The empty result arises exactly from the digit string \<open>00\<close>.\<close>

lemma normalizeTZ_empty_iff:
  "normalizeTZ raw = Some [] \<longleftrightarrow> getDigits (case raw of None \<Rightarrow> [] | Some s \<Rightarrow> s) = ''00''"
  unfolding normalizeTZ_def Let_def
  by (cases "getDigits (case raw of None \<Rightarrow> [] | Some s \<Rightarrow> s)" rule: drop_international.cases)
    (auto simp: startsWith_def slice_def)

text \<open>
  C3. Idempotence of normalization, \<open>normalizeTZ(normalizeTZ(x)) = normalizeTZ(x)\<close> for every
  input, does not hold of the code at the input \<open>"00"\<close>: the check for an empty digit string
  comes before the international prefix is dropped, so the first application returns the
  empty string, not \<open>null\<close>, and the second application returns \<open>null\<close>.
\<close>

theorem normalizeTZ_twice_on_00:
  "normalizeTZ (Some ''00'') = Some [] \<and> normalizeTZ (normalizeTZ (Some ''00'')) = None"
  by (simp add: normalizeTZ_def getDigits_def isDigit_def startsWith_def slice_def)

text \<open>
  C4. \<open>normalizeTZ\<close> computes the algorithm of the specification: on every input string it
  agrees with \<open>normalize_spec\<close> (strip the non-digits, drop a leading \<open>00\<close>, replace a
  leading \<open>0\<close> with \<open>255\<close>, prepend \<open>255\<close> to a nine-digit number lacking it); it returns
  the invalid sentinel exactly when stripping the non-digits leaves nothing; and the four
  examples of the specification evaluate as stated.
\<close>

theorem normalizeTZ_follows_specification:
  "normalizeTZ (Some x) = normalize_spec x
   \<and> (normalizeTZ (Some x) = None) = (getDigits x = [])
   \<and> normalizeTZ (Some ''0712345678'') = Some ''255712345678''
   \<and> normalizeTZ (Some ''00255712345678'') = Some ''255712345678''
   \<and> normalizeTZ (Some ''712345678'') = Some ''255712345678''
   \<and> normalizeTZ (Some '''') = None"
proof -
  have ex: "normalizeTZ (Some ''0712345678'') = Some ''255712345678''"
    "normalizeTZ (Some ''00255712345678'') = Some ''255712345678''"
    "normalizeTZ (Some ''712345678'') = Some ''255712345678''"
    "normalizeTZ (Some '''') = None"
    by (simp_all add: normalizeTZ_def getDigits_def isDigit_def startsWith_def slice_def)
  show ?thesis
    using normalizeTZ_refines [of x] normalizeTZ_None_iff [of x] ex by simp
qed

section \<open>Properties of the broadcast\<close>

text \<open>One attempt increments exactly one counter and appends exactly one log line.\<close>

lemma attempt_outcome:
  "(sendingProgress (attempt f m n s) = (sendingProgress s)\<lparr>sent := sent (sendingProgress s) + 1\<rparr>
      \<and> sendingLogs (attempt f m n s) = sendingLogs s @ [Sent_to n])
   \<or> (sendingProgress (attempt f m n s) = (sendingProgress s)\<lparr>failed := failed (sendingProgress s) + 1\<rparr>
      \<and> sendingLogs (attempt f m n s) = sendingLogs s @ [Failed_to_send_to n])"
proof (cases "sock s")
  case None
  then show ?thesis by (simp add: attempt_def Let_def)
next
  case (Some w)
  then show ?thesis
    by (cases "f w (n @ ''@s.whatsapp.net'') m") (simp add: attempt_def Let_def)
qed

lemma attempt_frame:
  "history_json (attempt f m n s) = history_json s"
  "connectionStatus (attempt f m n s) = connectionStatus s"
  "latestQR (attempt f m n s) = latestQR s"
  by (simp_all add: attempt_def Let_def split: option.split prod.split)

lemma attempt_wire:
  assumes "sock s = Some w"
  shows "wire (attempt f m n s) = wire s @ [(n @ ''@s.whatsapp.net'', m)]"
    and "sock (attempt f m n s) = Some (snd (f w (n @ ''@s.whatsapp.net'') m))"
  using assms by (simp_all add: attempt_def Let_def split: prod.split)

lemma send_loop_frame:
  "history_json (send_loop f m ns s) = history_json s"
  "connectionStatus (send_loop f m ns s) = connectionStatus s"
  "latestQR (send_loop f m ns s) = latestQR s"
  by (induction ns arbitrary: s) (simp_all add: attempt_frame)

text \<open>With a socket, the loop calls \<open>sendMessage\<close> once per number, in order.\<close>

lemma send_loop_wire:
  "sock s \<noteq> None \<Longrightarrow>
     wire (send_loop f m ns s) = wire s @ map (\<lambda>n. (n @ ''@s.whatsapp.net'', m)) ns
     \<and> sock (send_loop f m ns s) \<noteq> None"
proof (induction ns arbitrary: s)
  case Nil
  then show ?case by simp
next
  case (Cons n ns)
  from Cons.prems obtain w where w: "sock s = Some w" by auto
  have "sock (attempt f m n s) \<noteq> None"
    using attempt_wire(2) [OF w] by simp
  from Cons.IH [OF this] show ?case
    using attempt_wire(1) [OF w] by simp
qed

text \<open>The loop appends one log line per number, in order, and counts each line once.\<close>

lemma send_loop_counts:
  "\<exists>ls. sendingLogs (send_loop f m ns s) = sendingLogs s @ ls
        \<and> map log_number ls = ns
        \<and> sendingProgress (send_loop f m ns s) =
            (sendingProgress s)\<lparr>sent := sent (sendingProgress s) + length (filter is_sent ls),
               failed := failed (sendingProgress s) + length (filter (\<lambda>l. \<not> is_sent l) ls)\<rparr>"
proof (induction ns arbitrary: s)
  case Nil
  then show ?case by simp
next
  case (Cons n ns)
  let ?s1 = "attempt f m n s"
  from Cons.IH [of ?s1] obtain ls where
    ls: "sendingLogs (send_loop f m ns ?s1) = sendingLogs ?s1 @ ls"
        "map log_number ls = ns"
        "sendingProgress (send_loop f m ns ?s1) =
            (sendingProgress ?s1)\<lparr>sent := sent (sendingProgress ?s1) + length (filter is_sent ls),
               failed := failed (sendingProgress ?s1) + length (filter (\<lambda>l. \<not> is_sent l) ls)\<rparr>"
    by blast
  from attempt_outcome [of f m n s] show ?case
  proof (elim disjE conjE)
    assume a: "sendingProgress ?s1 = (sendingProgress s)\<lparr>sent := sent (sendingProgress s) + 1\<rparr>"
      "sendingLogs ?s1 = sendingLogs s @ [Sent_to n]"
    show ?thesis
      by (rule exI [of _ "Sent_to n # ls"]) (simp add: ls a)
  next
    assume a: "sendingProgress ?s1 = (sendingProgress s)\<lparr>failed := failed (sendingProgress s) + 1\<rparr>"
      "sendingLogs ?s1 = sendingLogs s @ [Failed_to_send_to n]"
    show ?thesis
      by (rule exI [of _ "Failed_to_send_to n # ls"]) (simp add: ls a)
  qed
qed

lemma reset_progress_simps:
  "sendingProgress (reset_progress ns s) = \<lparr>total = length ns, sent = 0, failed = 0\<rparr>"
  "sendingLogs (reset_progress ns s) = []"
  "wire (reset_progress ns s) = wire s"
  "sock (reset_progress ns s) = sock s"
  "history_json (reset_progress ns s) = history_json s"
  by (simp_all add: reset_progress_def Let_def)

text \<open>
  With a socket, one attempt makes one call, and it is the outcome of that call that
  decides which counter is incremented and which line is logged.
\<close>

lemma attempt_with_socket:
  assumes "sock s = Some w"
  shows "sendingLogs (attempt f msg (phone c) s)
           = sendingLogs s @ [report (c, fst (f w (phone c @ ''@s.whatsapp.net'') msg))]"
    and "sendingProgress (attempt f msg (phone c) s)
           = (if fst (f w (phone c @ ''@s.whatsapp.net'') msg)
              then (sendingProgress s)\<lparr>sent := sent (sendingProgress s) + 1\<rparr>
              else (sendingProgress s)\<lparr>failed := failed (sendingProgress s) + 1\<rparr>)"
  using assms by (simp_all add: attempt_def Let_def report_def split: prod.split)

text \<open>
  The loop over the contacts: the calls made are one per contact in order, the log lines
  report the outcomes of these very calls, and the counters count them.
\<close>

lemma send_loop_outcomes:
  "sock s = Some w \<Longrightarrow>
     wire (send_loop f msg (map phone cs) s) = wire s @ calls_for msg cs
   \<and> sendingLogs (send_loop f msg (map phone cs) s)
       = sendingLogs s @ map report (zip cs (outcomes f w (calls_for msg cs)))
   \<and> sendingProgress (send_loop f msg (map phone cs) s)
       = (sendingProgress s)
           \<lparr>sent := sent (sendingProgress s)
                      + length (filter (\<lambda>ok. ok) (outcomes f w (calls_for msg cs))),
            failed := failed (sendingProgress s)
                      + length (filter (\<lambda>ok. \<not> ok) (outcomes f w (calls_for msg cs)))\<rparr>"
proof (induction cs arbitrary: s w)
  case Nil
  then show ?case by (simp add: calls_for_def)
next
  case (Cons c cs)
  let ?jid = "phone c @ ''@s.whatsapp.net''"
  let ?s1 = "attempt f msg (phone c) s"
  let ?w1 = "snd (f w ?jid msg)"
  have sock1: "sock ?s1 = Some ?w1"
    using attempt_wire(2) [OF Cons.prems] .
  have calls: "calls_for msg (c # cs) = (?jid, msg) # calls_for msg cs"
    by (simp add: calls_for_def)
  note ih = Cons.IH [OF sock1]
  note a = attempt_with_socket [OF Cons.prems, of f msg c] attempt_wire(1) [OF Cons.prems, of f msg "phone c"]
  show ?case
  proof (cases "fst (f w ?jid msg)")
    case True
    with ih a show ?thesis by (simp add: calls)
  next
    case False
    with ih a show ?thesis by (simp add: calls)
  qed
qed

lemma length_outcomes: "length (outcomes f w calls) = length calls"
  by (induction calls arbitrary: w) auto

text \<open>The two handlers on a request that passes their checks.\<close>

lemma send_accepted:
  assumes "trim m \<noteq> []" and "findOne db setName = Some cs"
    and "sock s = Some w" and "connectionStatus s = Connected"
  shows "send f now db setName (Some m) s =
    (let s2 = send_loop f m (map phone (contacts cs)) (reset_progress (map phone (contacts cs)) s);
         p = sendingProgress s2;
         s3 = s2\<lparr>history_json := Some (\<lparr>total = total p, sent = sent p, failed = failed p,
                 h_date = now, h_setName = setName, h_message = Some m\<rparr> # loadHistory s2)\<rparr>
     in (ok_response [(''message'', JStr ''Done''), (''stats'', JProgress p)], s3))"
proof -
  from assms(1) have "m \<noteq> []" by (auto simp: trim_def)
  with assms show ?thesis
    by (simp add: send_def Let_def saveHistory_def)
qed

lemma send_server_js_accepted:
  assumes "findOne_exact db setName = Some cs"
    and "sock s = Some w" and "connectionStatus s = Connected"
  shows "send_server_js f now db setName (Some m) s =
    (let s2 = send_loop f (remove_first ''{{name}}'' m) (map phone (contacts cs))
                (reset_progress (map phone (contacts cs)) s);
         p = sendingProgress s2;
         s3 = s2\<lparr>history_json := Some (\<lparr>total = total p, sent = sent p, failed = failed p,
                 h_date = now, h_setName = setName, h_message = Some m\<rparr> # loadHistory s2)\<rparr>
     in (Some (ok_response [(''message'', JStr ''Messages sent''), (''stats'', JProgress p)]), s3))"
  using assms by (simp add: send_server_js_def Let_def saveHistory_def)

text \<open>What a loop started after the reset leaves behind.\<close>

lemma broadcast_loop:
  fixes f and msg and cs and s and w
  assumes "sock s = Some w"
  defines "s2 \<equiv> send_loop f msg (map phone cs) (reset_progress (map phone cs) s)"
  shows "wire s2 = wire s @ calls_for msg cs"
    and "sendingLogs s2 = map report (zip cs (outcomes f w (calls_for msg cs)))"
    and "sendingProgress s2 =
           \<lparr>total = length cs,
            sent = length (filter (\<lambda>ok. ok) (outcomes f w (calls_for msg cs))),
            failed = length (filter (\<lambda>ok. \<not> ok) (outcomes f w (calls_for msg cs)))\<rparr>"
    and "loadHistory s2 = loadHistory s"
proof -
  have "sock (reset_progress (map phone cs) s) = Some w"
    using assms(1) by (simp add: reset_progress_simps)
  from send_loop_outcomes [OF this, of f msg cs]
  show "wire s2 = wire s @ calls_for msg cs"
    and "sendingLogs s2 = map report (zip cs (outcomes f w (calls_for msg cs)))"
    and "sendingProgress s2 =
           \<lparr>total = length cs,
            sent = length (filter (\<lambda>ok. ok) (outcomes f w (calls_for msg cs))),
            failed = length (filter (\<lambda>ok. \<not> ok) (outcomes f w (calls_for msg cs)))\<rparr>"
    unfolding s2_def by (simp_all add: reset_progress_simps)
  show "loadHistory s2 = loadHistory s"
    unfolding s2_def by (simp add: loadHistory_def send_loop_frame reset_progress_simps)
qed

lemma send_result:
  assumes "trim m \<noteq> []" and "findOne db setName = Some cs"
    and "sock s = Some w" and "connectionStatus s = Connected"
  shows "(case send f now db setName (Some m) s of (r, s') \<Rightarrow>
       wire s' = wire s @ calls_for m (contacts cs)
     \<and> sendingLogs s' = map report (zip (contacts cs) (outcomes f w (calls_for m (contacts cs))))
     \<and> sendingProgress s' =
          \<lparr>total = length (contacts cs),
           sent = length (filter (\<lambda>ok. ok) (outcomes f w (calls_for m (contacts cs)))),
           failed = length (filter (\<lambda>ok. \<not> ok) (outcomes f w (calls_for m (contacts cs))))\<rparr>
     \<and> r = ok_response [(''message'', JStr ''Done''), (''stats'', JProgress (sendingProgress s'))]
     \<and> history_json s' =
          Some (\<lparr>total = total (sendingProgress s'), sent = sent (sendingProgress s'),
                 failed = failed (sendingProgress s'),
                 h_date = now, h_setName = setName, h_message = Some m\<rparr> # loadHistory s))"
  unfolding send_accepted [OF assms] Let_def
  using broadcast_loop [OF assms(3), of f m "contacts cs"] by simp

lemma send_server_js_result:
  assumes "findOne_exact db setName = Some cs"
    and "sock s = Some w" and "connectionStatus s = Connected"
  shows "(case send_server_js f now db setName (Some m) s of (r, s') \<Rightarrow>
       wire s' = wire s @ calls_for (remove_first ''{{name}}'' m) (contacts cs)
     \<and> sendingLogs s' = map report (zip (contacts cs)
           (outcomes f w (calls_for (remove_first ''{{name}}'' m) (contacts cs))))
     \<and> sendingProgress s' =
          \<lparr>total = length (contacts cs),
           sent = length (filter (\<lambda>ok. ok)
                    (outcomes f w (calls_for (remove_first ''{{name}}'' m) (contacts cs)))),
           failed = length (filter (\<lambda>ok. \<not> ok)
                    (outcomes f w (calls_for (remove_first ''{{name}}'' m) (contacts cs))))\<rparr>
     \<and> r = Some (ok_response [(''message'', JStr ''Messages sent''),
                               (''stats'', JProgress (sendingProgress s'))])
     \<and> history_json s' =
          Some (\<lparr>total = total (sendingProgress s'), sent = sent (sendingProgress s'),
                 failed = failed (sendingProgress s'),
                 h_date = now, h_setName = setName, h_message = Some m\<rparr> # loadHistory s))"
  unfolding send_server_js_accepted [OF assms] Let_def
  using broadcast_loop [OF assms(2), of f "remove_first ''{{name}}'' m" "contacts cs"] by simp

lemma friends_found: "findOne three_contacts ''friends'' = Some (hd three_contacts)"
  by (simp add: findOne_def three_contacts_def trim_def isSpace_def)

lemma friends_found_exact: "findOne_exact three_contacts ''friends'' = Some (hd three_contacts)"
  by (simp add: findOne_exact_def three_contacts_def)

lemma second_call_throws_outcomes:
  "outcomes second_call_throws 0 (calls_for msg (contacts (hd three_contacts)))
     = [True, False, True]"
  by (simp add: calls_for_def three_contacts_def second_call_throws_def)

lemma connected_server_simps:
  "sock connected_server = Some 0"
  "connectionStatus connected_server = Connected"
  "wire connected_server = []"
  "loadHistory connected_server = [earlier_run]"
  by (simp_all add: connected_server_def initial_server_def loadHistory_def)

text \<open>
  C1. In both versions of the send handler, a broadcast that passes the handler's checks
  calls \<open>sendMessage\<close> once for every contact of the set read at the start, in stored
  order (\<open>wire\<close> grows by exactly these calls: no retry, and a throwing call does not end
  the loop). The log has one line per contact, in the same order, and the line reports the
  outcome of the call made for that contact; \<open>sent\<close> is the number of these calls that
  resolved and \<open>failed\<close> the number that threw, with \<open>total\<close> the size of the set. The
  response carries these counters as \<open>stats\<close>, and exactly one entry with the same
  \<open>total\<close>, \<open>sent\<close> and \<open>failed\<close> is put in front of the history. The later handler sends
  the message as it is; the earlier one (\<open>src/backend/server.js\<close>) sends it with the first
  \<open>{{name}}\<close> removed, for a request that has a message. For three contacts and a socket
  whose second call throws, both handlers return the stats \<open>{total: 3, sent: 2, failed: 1}\<close>
  and the new first entry of the history has the same counters.
\<close>

theorem broadcast_counts_every_contact_once:
  "(trim m \<noteq> [] \<and> findOne db setName = Some cs \<and> sock s = Some w \<and> connectionStatus s = Connected
     \<longrightarrow> (case send f now db setName (Some m) s of (r, s') \<Rightarrow>
            wire s' = wire s @ calls_for m (contacts cs)
          \<and> sendingLogs s' = map report (zip (contacts cs) (outcomes f w (calls_for m (contacts cs))))
          \<and> sendingProgress s' =
               \<lparr>total = length (contacts cs),
                sent = length (filter (\<lambda>ok. ok) (outcomes f w (calls_for m (contacts cs)))),
                failed = length (filter (\<lambda>ok. \<not> ok) (outcomes f w (calls_for m (contacts cs))))\<rparr>
          \<and> r = ok_response [(''message'', JStr ''Done''), (''stats'', JProgress (sendingProgress s'))]
          \<and> history_json s' =
               Some (\<lparr>total = total (sendingProgress s'), sent = sent (sendingProgress s'),
                      failed = failed (sendingProgress s'),
                      h_date = now, h_setName = setName, h_message = Some m\<rparr> # loadHistory s)))
   \<and> (findOne_exact db setName = Some cs \<and> sock s = Some w \<and> connectionStatus s = Connected
     \<longrightarrow> (case send_server_js f now db setName (Some m) s of (r, s') \<Rightarrow>
            wire s' = wire s @ calls_for (remove_first ''{{name}}'' m) (contacts cs)
          \<and> sendingLogs s' = map report (zip (contacts cs)
                (outcomes f w (calls_for (remove_first ''{{name}}'' m) (contacts cs))))
          \<and> sendingProgress s' =
               \<lparr>total = length (contacts cs),
                sent = length (filter (\<lambda>ok. ok)
                         (outcomes f w (calls_for (remove_first ''{{name}}'' m) (contacts cs)))),
                failed = length (filter (\<lambda>ok. \<not> ok)
                         (outcomes f w (calls_for (remove_first ''{{name}}'' m) (contacts cs))))\<rparr>
          \<and> r = Some (ok_response [(''message'', JStr ''Messages sent''),
                                    (''stats'', JProgress (sendingProgress s'))])
          \<and> history_json s' =
               Some (\<lparr>total = total (sendingProgress s'), sent = sent (sendingProgress s'),
                      failed = failed (sendingProgress s'),
                      h_date = now, h_setName = setName, h_message = Some m\<rparr> # loadHistory s)))
   \<and> outcomes second_call_throws 0 (calls_for ''hello'' (contacts (hd three_contacts)))
       = [True, False, True]
   \<and> (case send second_call_throws ''2025-01-01 10:00:00'' three_contacts ''friends'' (Some ''hello'')
              connected_server of (r, s') \<Rightarrow>
          field r ''stats'' = Some (JProgress \<lparr>total = 3, sent = 2, failed = 1\<rparr>)
        \<and> sendingLogs s' = [Sent_to ''255700000001'', Failed_to_send_to ''255700000002'',
                             Sent_to ''255700000003'']
        \<and> history_json s' =
             Some [\<lparr>total = 3, sent = 2, failed = 1, h_date = ''2025-01-01 10:00:00'',
                     h_setName = ''friends'', h_message = Some ''hello''\<rparr>, earlier_run])
   \<and> (case send_server_js second_call_throws ''2025-01-01 10:00:00'' three_contacts ''friends''
              (Some ''hello'') connected_server of (r, s') \<Rightarrow>
          map_option (\<lambda>r. field r ''stats'') r
            = Some (Some (JProgress \<lparr>total = 3, sent = 2, failed = 1\<rparr>))
        \<and> sendingLogs s' = [Sent_to ''255700000001'', Failed_to_send_to ''255700000002'',
                             Sent_to ''255700000003'']
        \<and> history_json s' =
             Some [\<lparr>total = 3, sent = 2, failed = 1, h_date = ''2025-01-01 10:00:00'',
                     h_setName = ''friends'', h_message = Some ''hello''\<rparr>, earlier_run])"
proof (intro conjI impI)
  assume "trim m \<noteq> [] \<and> findOne db setName = Some cs \<and> sock s = Some w \<and> connectionStatus s = Connected"
  then have "trim m \<noteq> []" "findOne db setName = Some cs" "sock s = Some w" "connectionStatus s = Connected"
    by simp_all
  then show "case send f now db setName (Some m) s of (r, s') \<Rightarrow>
            wire s' = wire s @ calls_for m (contacts cs)
          \<and> sendingLogs s' = map report (zip (contacts cs) (outcomes f w (calls_for m (contacts cs))))
          \<and> sendingProgress s' =
               \<lparr>total = length (contacts cs),
                sent = length (filter (\<lambda>ok. ok) (outcomes f w (calls_for m (contacts cs)))),
                failed = length (filter (\<lambda>ok. \<not> ok) (outcomes f w (calls_for m (contacts cs))))\<rparr>
          \<and> r = ok_response [(''message'', JStr ''Done''), (''stats'', JProgress (sendingProgress s'))]
          \<and> history_json s' =
               Some (\<lparr>total = total (sendingProgress s'), sent = sent (sendingProgress s'),
                      failed = failed (sendingProgress s'),
                      h_date = now, h_setName = setName, h_message = Some m\<rparr> # loadHistory s)"
    by (rule send_result)
next
  assume "findOne_exact db setName = Some cs \<and> sock s = Some w \<and> connectionStatus s = Connected"
  then have "findOne_exact db setName = Some cs" "sock s = Some w" "connectionStatus s = Connected"
    by simp_all
  then show "case send_server_js f now db setName (Some m) s of (r, s') \<Rightarrow>
            wire s' = wire s @ calls_for (remove_first ''{{name}}'' m) (contacts cs)
          \<and> sendingLogs s' = map report (zip (contacts cs)
                (outcomes f w (calls_for (remove_first ''{{name}}'' m) (contacts cs))))
          \<and> sendingProgress s' =
               \<lparr>total = length (contacts cs),
                sent = length (filter (\<lambda>ok. ok)
                         (outcomes f w (calls_for (remove_first ''{{name}}'' m) (contacts cs)))),
                failed = length (filter (\<lambda>ok. \<not> ok)
                         (outcomes f w (calls_for (remove_first ''{{name}}'' m) (contacts cs))))\<rparr>
          \<and> r = Some (ok_response [(''message'', JStr ''Messages sent''),
                                    (''stats'', JProgress (sendingProgress s'))])
          \<and> history_json s' =
               Some (\<lparr>total = total (sendingProgress s'), sent = sent (sendingProgress s'),
                      failed = failed (sendingProgress s'),
                      h_date = now, h_setName = setName, h_message = Some m\<rparr> # loadHistory s)"
    by (rule send_server_js_result)
next
  show "outcomes second_call_throws 0 (calls_for ''hello'' (contacts (hd three_contacts)))
       = [True, False, True]"
    by (rule second_call_throws_outcomes)
next
  have t: "trim ''hello'' \<noteq> []"
    by (simp add: trim_def isSpace_def)
  have cs: "contacts (hd three_contacts) =
      [\<lparr>phone = ''255700000001'', name = ''A''\<rparr>, \<lparr>phone = ''255700000002'', name = ''B''\<rparr>,
       \<lparr>phone = ''255700000003'', name = ''C''\<rparr>]"
    by (simp add: three_contacts_def)
  from send_result [OF t friends_found connected_server_simps(1,2),
      where f = second_call_throws and now = "''2025-01-01 10:00:00''"]
  show "case send second_call_throws ''2025-01-01 10:00:00'' three_contacts ''friends'' (Some ''hello'')
              connected_server of (r, s') \<Rightarrow>
          field r ''stats'' = Some (JProgress \<lparr>total = 3, sent = 2, failed = 1\<rparr>)
        \<and> sendingLogs s' = [Sent_to ''255700000001'', Failed_to_send_to ''255700000002'',
                             Sent_to ''255700000003'']
        \<and> history_json s' =
             Some [\<lparr>total = 3, sent = 2, failed = 1, h_date = ''2025-01-01 10:00:00'',
                     h_setName = ''friends'', h_message = Some ''hello''\<rparr>, earlier_run]"
    unfolding second_call_throws_outcomes connected_server_simps
    by (cases "send second_call_throws ''2025-01-01 10:00:00'' three_contacts ''friends''
                 (Some ''hello'') connected_server")
      (simp add: cs report_def field_def ok_response_def)
next
  have cs: "contacts (hd three_contacts) =
      [\<lparr>phone = ''255700000001'', name = ''A''\<rparr>, \<lparr>phone = ''255700000002'', name = ''B''\<rparr>,
       \<lparr>phone = ''255700000003'', name = ''C''\<rparr>]"
    by (simp add: three_contacts_def)
  from send_server_js_result [OF friends_found_exact connected_server_simps(1,2),
      where f = second_call_throws and now = "''2025-01-01 10:00:00''" and m = "''hello''"]
  show "case send_server_js second_call_throws ''2025-01-01 10:00:00'' three_contacts ''friends''
              (Some ''hello'') connected_server of (r, s') \<Rightarrow>
          map_option (\<lambda>r. field r ''stats'') r
            = Some (Some (JProgress \<lparr>total = 3, sent = 2, failed = 1\<rparr>))
        \<and> sendingLogs s' = [Sent_to ''255700000001'', Failed_to_send_to ''255700000002'',
                             Sent_to ''255700000003'']
        \<and> history_json s' =
             Some [\<lparr>total = 3, sent = 2, failed = 1, h_date = ''2025-01-01 10:00:00'',
                     h_setName = ''friends'', h_message = Some ''hello''\<rparr>, earlier_run]"
    unfolding second_call_throws_outcomes connected_server_simps
    by (cases "send_server_js second_call_throws ''2025-01-01 10:00:00'' three_contacts ''friends''
                 (Some ''hello'') connected_server")
      (simp add: cs report_def field_def ok_response_def)
qed

theorem broadcast_counts_every_contact_once_witness:
  "trim ''hello'' \<noteq> [] \<and> findOne three_contacts ''friends'' = Some (hd three_contacts)
   \<and> findOne_exact three_contacts ''friends'' = Some (hd three_contacts)
   \<and> sock connected_server = Some 0 \<and> connectionStatus connected_server = Connected
   \<and> sendingProgress (snd (send second_call_throws ''2025-01-01 10:00:00'' three_contacts ''friends''
                  (Some ''hello'') connected_server))
       = \<lparr>total = 3, sent = 2, failed = 1\<rparr>
   \<and> wire (snd (send_server_js second_call_throws ''2025-01-01 10:00:00'' three_contacts ''friends''
                  (Some ''hi {{name}}!'') connected_server))
       = [(''255700000001@s.whatsapp.net'', ''hi !''),
          (''255700000002@s.whatsapp.net'', ''hi !''),
          (''255700000003@s.whatsapp.net'', ''hi !'')]"
proof -
  have t: "trim ''hello'' \<noteq> []"
    by (simp add: trim_def isSpace_def)
  have cs: "contacts (hd three_contacts) =
      [\<lparr>phone = ''255700000001'', name = ''A''\<rparr>, \<lparr>phone = ''255700000002'', name = ''B''\<rparr>,
       \<lparr>phone = ''255700000003'', name = ''C''\<rparr>]"
    by (simp add: three_contacts_def)
  have h1: "trim ''hello'' \<noteq> [] \<and> findOne three_contacts ''friends'' = Some (hd three_contacts)
     \<and> sock connected_server = Some 0 \<and> connectionStatus connected_server = Connected"
    using t friends_found connected_server_simps(1,2) by simp
  have h2: "findOne_exact three_contacts ''friends'' = Some (hd three_contacts)
     \<and> sock connected_server = Some 0 \<and> connectionStatus connected_server = Connected"
    using friends_found_exact connected_server_simps(1,2) by simp
  from h1 have "case send second_call_throws ''2025-01-01 10:00:00'' three_contacts ''friends''
                  (Some ''hello'') connected_server of (r, s') \<Rightarrow>
       sendingProgress s' =
               \<lparr>total = length (contacts (hd three_contacts)),
                sent = length (filter (\<lambda>ok. ok) (outcomes second_call_throws 0
                         (calls_for ''hello'' (contacts (hd three_contacts))))),
                failed = length (filter (\<lambda>ok. \<not> ok) (outcomes second_call_throws 0
                         (calls_for ''hello'' (contacts (hd three_contacts)))))\<rparr>"
    using broadcast_counts_every_contact_once
      [where m = "''hello''" and db = three_contacts and setName = "''friends''"
         and cs = "hd three_contacts" and s = connected_server and w = 0
         and f = second_call_throws and now = "''2025-01-01 10:00:00''", THEN conjunct1]
    unfolding split_beta by blast
  then have a: "sendingProgress (snd (send second_call_throws ''2025-01-01 10:00:00'' three_contacts
                  ''friends'' (Some ''hello'') connected_server))
       = \<lparr>total = 3, sent = 2, failed = 1\<rparr>"
    unfolding second_call_throws_outcomes by (simp add: split_beta cs)
  from h2 have "case send_server_js second_call_throws ''2025-01-01 10:00:00'' three_contacts ''friends''
                  (Some ''hi {{name}}!'') connected_server of (r, s') \<Rightarrow>
       wire s' = wire connected_server
                 @ calls_for (remove_first ''{{name}}'' ''hi {{name}}!'') (contacts (hd three_contacts))"
    using broadcast_counts_every_contact_once
      [where m = "''hi {{name}}!''" and db = three_contacts and setName = "''friends''"
         and cs = "hd three_contacts" and s = connected_server and w = 0
         and f = second_call_throws and now = "''2025-01-01 10:00:00''",
       THEN conjunct2, THEN conjunct1]
    unfolding split_beta by blast
  then have b: "wire (snd (send_server_js second_call_throws ''2025-01-01 10:00:00'' three_contacts
                  ''friends'' (Some ''hi {{name}}!'') connected_server))
       = [(''255700000001@s.whatsapp.net'', ''hi !''),
          (''255700000002@s.whatsapp.net'', ''hi !''),
          (''255700000003@s.whatsapp.net'', ''hi !'')]"
    by (simp add: split_beta cs connected_server_simps calls_for_def startsWith_def slice_def)
  from h1 h2 a b show ?thesis by blast
qed

section \<open>Rejected broadcasts\<close>

lemma send_no_message:
  "send f now db setName None s = (error_response 400 ''Message is required'', s)"
  by (simp add: send_def)

lemma send_blank_message:
  "trim m = [] \<Longrightarrow> send f now db setName (Some m) s = (error_response 400 ''Message is required'', s)"
  by (simp add: send_def)

lemma trim_Nil: "trim [] = []"
  by (simp add: trim_def)

lemma send_no_set:
  assumes "trim m \<noteq> []" and "findOne db setName = None"
  shows "send f now db setName (Some m) s = (error_response 404 ''Set not found'', s)"
proof -
  from assms(1) have "m \<noteq> []" by (auto simp: trim_Nil)
  with assms show ?thesis by (simp add: send_def)
qed

lemma send_not_connected:
  assumes "trim m \<noteq> []" and "findOne db setName = Some cs"
    and "sock s = None \<or> connectionStatus s \<noteq> Connected"
  shows "send f now db setName (Some m) s = (error_response 400 ''WhatsApp not connected'', s)"
proof -
  from assms(1) have "m \<noteq> []" by (auto simp: trim_Nil)
  with assms show ?thesis by (auto simp: send_def Let_def)
qed

lemma send_server_js_no_set:
  "findOne_exact db setName = None \<Longrightarrow>
     send_server_js f now db setName message s = (Some (error_response 404 ''Set not found''), s)"
  by (simp add: send_server_js_def)

lemma send_server_js_not_connected:
  assumes "findOne_exact db setName = Some cs"
    and "sock s = None \<or> connectionStatus s \<noteq> Connected"
  shows "send_server_js f now db setName message s
           = (Some (error_response 400 ''WhatsApp not connected''), s)"
  using assms by (auto simp: send_server_js_def Let_def)

lemma send_server_js_any_message:
  assumes "findOne_exact db setName = Some cs"
    and "sock s = Some w" and "connectionStatus s = Connected"
  shows "(case send_server_js f now db setName (Some m) s of (r, s') \<Rightarrow>
            map_option status r = Some 200
          \<and> wire s' = wire s @ calls_for (remove_first ''{{name}}'' m) (contacts cs))"
  using send_server_js_result [OF assms, where f = f and now = now and m = m]
  by (cases "send_server_js f now db setName (Some m) s") (simp add: ok_response_def)

text \<open>
  A request without a message is not a broadcast: the later handler rejects it, and the
  earlier one, for a set with a contact, throws before the first call and gives no response.
\<close>

lemma send_server_js_without_message:
  assumes "findOne_exact db setName = Some cs"
    and "sock s = Some w" and "connectionStatus s = Connected" and "contacts cs \<noteq> []"
  shows "send_server_js f now db setName None s
           = (None, reset_progress (map phone (contacts cs)) s)"
  using assms by (simp add: send_server_js_def Let_def)

text \<open>
  C2, as stated: every request with an empty or blank message is answered with status 400
  and nothing is sent. The earlier handler (\<open>src/backend/server.js\<close>) has no check of the
  message: it broadcasts a blank message to the three contacts, changes counters and
  history, and answers with status 200.
\<close>

theorem server_js_broadcasts_blank_message:
  "trim ''   '' = []
   \<and> map_option status (fst (send_server_js second_call_throws ''2025-01-01 10:00:00''
        three_contacts ''friends'' (Some ''   '') connected_server)) = Some 200
   \<and> wire (snd (send_server_js second_call_throws ''2025-01-01 10:00:00''
        three_contacts ''friends'' (Some ''   '') connected_server))
       = [(''255700000001@s.whatsapp.net'', ''   ''),
          (''255700000002@s.whatsapp.net'', ''   ''),
          (''255700000003@s.whatsapp.net'', ''   '')]
   \<and> sendingProgress (snd (send_server_js second_call_throws ''2025-01-01 10:00:00''
        three_contacts ''friends'' (Some ''   '') connected_server))
       = \<lparr>total = 3, sent = 2, failed = 1\<rparr>
   \<and> history_json (snd (send_server_js second_call_throws ''2025-01-01 10:00:00''
        three_contacts ''friends'' (Some ''   '') connected_server))
       \<noteq> history_json connected_server"
proof -
  have cs: "contacts (hd three_contacts) =
      [\<lparr>phone = ''255700000001'', name = ''A''\<rparr>, \<lparr>phone = ''255700000002'', name = ''B''\<rparr>,
       \<lparr>phone = ''255700000003'', name = ''C''\<rparr>]"
    by (simp add: three_contacts_def)
  have blank: "trim ''   '' = []"
    by (simp add: trim_def isSpace_def)
  have same: "remove_first ''{{name}}'' ''   '' = ''   ''"
    by (simp add: startsWith_def)
  from send_server_js_result [OF friends_found_exact connected_server_simps(1,2),
      where f = second_call_throws and now = "''2025-01-01 10:00:00''" and m = "''   ''"]
  show ?thesis
    unfolding same second_call_throws_outcomes connected_server_simps
    by (cases "send_server_js second_call_throws ''2025-01-01 10:00:00'' three_contacts ''friends''
                 (Some ''   '') connected_server")
      (simp add: blank cs calls_for_def ok_response_def connected_server_def initial_server_def)
qed

text \<open>
  C2, amended. The later send handler rejects a request whose message is absent, empty or
  blank with status 400 (\<open>Message is required\<close>); a request with a non-blank message for a
  set that does not exist with status 404; and a request with a non-blank message for an
  existing set, while there is no socket or the session is not connected, with status 400
  (\<open>WhatsApp not connected\<close>). The earlier handler (\<open>src/backend/server.js\<close>) rejects a
  request for a set that does not exist with status 404 and a request for an existing set
  while there is no socket or the session is not connected with status 400, whatever the
  message; it has no check of the message, and broadcasts an empty or blank message like
  any other. In each rejection the server state is returned as it was: counters, logs and
  history are unchanged, nothing is emitted and \<open>sendMessage\<close> is not called.
\<close>

theorem send_rejections_of_both_handlers:
  "((message = None \<or> (\<exists>m. message = Some m \<and> trim m = []))
      \<longrightarrow> send f now db setName message s = (error_response 400 ''Message is required'', s))
   \<and> (trim m \<noteq> [] \<and> findOne db setName = None
      \<longrightarrow> send f now db setName (Some m) s = (error_response 404 ''Set not found'', s))
   \<and> (trim m \<noteq> [] \<and> findOne db setName = Some cs \<and> (sock s = None \<or> connectionStatus s \<noteq> Connected)
      \<longrightarrow> send f now db setName (Some m) s = (error_response 400 ''WhatsApp not connected'', s))
   \<and> (findOne_exact db setName = None
      \<longrightarrow> send_server_js f now db setName message s
          = (Some (error_response 404 ''Set not found''), s))
   \<and> (findOne_exact db setName = Some cs \<and> (sock s = None \<or> connectionStatus s \<noteq> Connected)
      \<longrightarrow> send_server_js f now db setName message s
          = (Some (error_response 400 ''WhatsApp not connected''), s))
   \<and> (findOne_exact db setName = Some cs \<and> sock s = Some w \<and> connectionStatus s = Connected
      \<longrightarrow> (case send_server_js f now db setName (Some m) s of (r, s') \<Rightarrow>
            map_option status r = Some 200
          \<and> wire s' = wire s @ calls_for (remove_first ''{{name}}'' m) (contacts cs)))"
proof (intro conjI impI)
  assume "message = None \<or> (\<exists>m. message = Some m \<and> trim m = [])"
  then show "send f now db setName message s = (error_response 400 ''Message is required'', s)"
    by (auto simp: send_no_message send_blank_message)
next
  assume "trim m \<noteq> [] \<and> findOne db setName = None"
  then show "send f now db setName (Some m) s = (error_response 404 ''Set not found'', s)"
    by (simp add: send_no_set)
next
  assume "trim m \<noteq> [] \<and> findOne db setName = Some cs \<and> (sock s = None \<or> connectionStatus s \<noteq> Connected)"
  then show "send f now db setName (Some m) s = (error_response 400 ''WhatsApp not connected'', s)"
    using send_not_connected [where f = f and now = now] by blast
next
  assume "findOne_exact db setName = None"
  then show "send_server_js f now db setName message s
          = (Some (error_response 404 ''Set not found''), s)"
    by (rule send_server_js_no_set)
next
  assume "findOne_exact db setName = Some cs \<and> (sock s = None \<or> connectionStatus s \<noteq> Connected)"
  then show "send_server_js f now db setName message s
          = (Some (error_response 400 ''WhatsApp not connected''), s)"
    using send_server_js_not_connected [where f = f and now = now and message = message] by blast
next
  assume "findOne_exact db setName = Some cs \<and> sock s = Some w \<and> connectionStatus s = Connected"
  then have "findOne_exact db setName = Some cs" "sock s = Some w" "connectionStatus s = Connected"
    by simp_all
  then show "case send_server_js f now db setName (Some m) s of (r, s') \<Rightarrow>
            map_option status r = Some 200
          \<and> wire s' = wire s @ calls_for (remove_first ''{{name}}'' m) (contacts cs)"
    by (rule send_server_js_any_message)
qed

theorem send_rejections_of_both_handlers_witness:
  "trim ''   '' = []
   \<and> send second_call_throws ''2025-01-01 10:00:00'' three_contacts ''friends'' (Some ''   '') connected_server
       = (error_response 400 ''Message is required'', connected_server)
   \<and> trim ''hello'' \<noteq> [] \<and> findOne three_contacts ''nobody'' = None
   \<and> send second_call_throws ''2025-01-01 10:00:00'' three_contacts ''nobody'' (Some ''hello'') connected_server
       = (error_response 404 ''Set not found'', connected_server)
   \<and> findOne three_contacts ''friends'' = Some (hd three_contacts)
   \<and> connectionStatus (connected_server\<lparr>connectionStatus := Disconnected\<rparr>) \<noteq> Connected
   \<and> send second_call_throws ''2025-01-01 10:00:00'' three_contacts ''friends'' (Some ''hello'')
        (connected_server\<lparr>connectionStatus := Disconnected\<rparr>)
       = (error_response 400 ''WhatsApp not connected'', connected_server\<lparr>connectionStatus := Disconnected\<rparr>)
   \<and> findOne_exact three_contacts ''nobody'' = None
   \<and> send_server_js second_call_throws ''2025-01-01 10:00:00'' three_contacts ''nobody'' (Some ''   '')
        connected_server
       = (Some (error_response 404 ''Set not found''), connected_server)
   \<and> findOne_exact three_contacts ''friends'' = Some (hd three_contacts)
   \<and> send_server_js second_call_throws ''2025-01-01 10:00:00'' three_contacts ''friends'' (Some ''   '')
        (connected_server\<lparr>connectionStatus := Disconnected\<rparr>)
       = (Some (error_response 400 ''WhatsApp not connected''),
          connected_server\<lparr>connectionStatus := Disconnected\<rparr>)
   \<and> sock connected_server = Some 0 \<and> connectionStatus connected_server = Connected
   \<and> map_option status (fst (send_server_js second_call_throws ''2025-01-01 10:00:00''
        three_contacts ''friends'' (Some ''   '') connected_server)) = Some 200"
proof -
  have blank: "trim ''   '' = []" and hello: "trim ''hello'' \<noteq> []"
    by (simp_all add: trim_def isSpace_def)
  have nobody: "findOne three_contacts ''nobody'' = None"
    by (simp add: findOne_def three_contacts_def trim_def isSpace_def)
  have nobody_exact: "findOne_exact three_contacts ''nobody'' = None"
    by (simp add: findOne_exact_def three_contacts_def)
  have down: "connectionStatus (connected_server\<lparr>connectionStatus := Disconnected\<rparr>) \<noteq> Connected"
    by simp
  note t = send_rejections_of_both_handlers
  note r1 = t [where message = "Some ''   ''" and f = second_call_throws
       and now = "''2025-01-01 10:00:00''" and db = three_contacts and setName = "''friends''"
       and s = connected_server, THEN conjunct1]
  note r2 = t [where m = "''hello''" and f = second_call_throws and now = "''2025-01-01 10:00:00''"
       and db = three_contacts and setName = "''nobody''" and s = connected_server,
     THEN conjunct2, THEN conjunct1]
  note r3 = t [where m = "''hello''" and f = second_call_throws and now = "''2025-01-01 10:00:00''"
       and db = three_contacts and setName = "''friends''" and cs = "hd three_contacts"
       and s = "connected_server\<lparr>connectionStatus := Disconnected\<rparr>",
     THEN conjunct2, THEN conjunct2, THEN conjunct1]
  note r4 = t [where message = "Some ''   ''" and f = second_call_throws
       and now = "''2025-01-01 10:00:00''" and db = three_contacts and setName = "''nobody''"
       and s = connected_server,
     THEN conjunct2, THEN conjunct2, THEN conjunct2, THEN conjunct1]
  note r5 = t [where message = "Some ''   ''" and f = second_call_throws
       and now = "''2025-01-01 10:00:00''" and db = three_contacts and setName = "''friends''"
       and cs = "hd three_contacts"
       and s = "connected_server\<lparr>connectionStatus := Disconnected\<rparr>",
     THEN conjunct2, THEN conjunct2, THEN conjunct2, THEN conjunct2, THEN conjunct1]
  note r6 = t [where m = "''   ''" and f = second_call_throws
       and now = "''2025-01-01 10:00:00''" and db = three_contacts and setName = "''friends''"
       and cs = "hd three_contacts" and s = connected_server and w = 0,
     THEN conjunct2, THEN conjunct2, THEN conjunct2, THEN conjunct2, THEN conjunct2]
  have 1: "send second_call_throws ''2025-01-01 10:00:00'' three_contacts ''friends'' (Some ''   '') connected_server
       = (error_response 400 ''Message is required'', connected_server)"
    using r1 blank by blast
  have 2: "send second_call_throws ''2025-01-01 10:00:00'' three_contacts ''nobody'' (Some ''hello'') connected_server
       = (error_response 404 ''Set not found'', connected_server)"
    using r2 hello nobody by blast
  have 3: "send second_call_throws ''2025-01-01 10:00:00'' three_contacts ''friends'' (Some ''hello'')
        (connected_server\<lparr>connectionStatus := Disconnected\<rparr>)
       = (error_response 400 ''WhatsApp not connected'', connected_server\<lparr>connectionStatus := Disconnected\<rparr>)"
    using r3 hello friends_found down by blast
  have 4: "send_server_js second_call_throws ''2025-01-01 10:00:00'' three_contacts ''nobody'' (Some ''   '')
        connected_server
       = (Some (error_response 404 ''Set not found''), connected_server)"
    using r4 nobody_exact by blast
  have 5: "send_server_js second_call_throws ''2025-01-01 10:00:00'' three_contacts ''friends'' (Some ''   '')
        (connected_server\<lparr>connectionStatus := Disconnected\<rparr>)
       = (Some (error_response 400 ''WhatsApp not connected''),
          connected_server\<lparr>connectionStatus := Disconnected\<rparr>)"
    using r5 friends_found_exact down by blast
  have "case send_server_js second_call_throws ''2025-01-01 10:00:00'' three_contacts ''friends''
          (Some ''   '') connected_server of (r, s') \<Rightarrow>
            map_option status r = Some 200
          \<and> wire s' = wire connected_server
               @ calls_for (remove_first ''{{name}}'' ''   '') (contacts (hd three_contacts))"
    using r6 friends_found_exact connected_server_simps(1,2) unfolding split_beta by blast
  then have 6: "map_option status (fst (send_server_js second_call_throws ''2025-01-01 10:00:00''
        three_contacts ''friends'' (Some ''   '') connected_server)) = Some 200"
    by (simp add: split_beta)
  from 1 2 3 4 5 6 blank hello nobody nobody_exact friends_found friends_found_exact down
    connected_server_simps(1,2)
  show ?thesis by blast
qed

section \<open>The invariant of the send loop\<close>

text \<open>
  C10. After the reset to \<open>{total: N, sent: 0, failed: 0}\<close> with an empty log, the state
  reached after any number \<open>k\<close> of iterations over the snapshot has \<open>total = N\<close>,
  \<open>sent + failed = k \<le> total\<close> and as many log lines as \<open>sent + failed\<close>; one attempt
  increments exactly one of \<open>sent\<close> and \<open>failed\<close> by one, leaves \<open>total\<close> alone and appends
  exactly one log line; and when the loop has run over the whole snapshot,
  \<open>sent + failed = total\<close>.
\<close>

theorem send_loop_keeps_counters_in_step:
  "(k \<le> length numbers \<longrightarrow>
      (let sk = send_loop f m (take k numbers) (reset_progress numbers s);
           p = sendingProgress sk
       in total p = length numbers \<and> sent p + failed p = k \<and> sent p + failed p \<le> total p
          \<and> length (sendingLogs sk) = sent p + failed p))
   \<and> (let p = sendingProgress s; s' = attempt f m n s; p' = sendingProgress s'
       in total p' = total p
          \<and> (sent p' = sent p + 1 \<and> failed p' = failed p \<or> sent p' = sent p \<and> failed p' = failed p + 1)
          \<and> length (sendingLogs s') = length (sendingLogs s) + 1)
   \<and> (let p = sendingProgress (send_loop f m numbers (reset_progress numbers s))
       in sent p + failed p = total p)"
proof -
  have loop: "total (sendingProgress (send_loop f m ns (reset_progress numbers s))) = length numbers
      \<and> sent (sendingProgress (send_loop f m ns (reset_progress numbers s)))
          + failed (sendingProgress (send_loop f m ns (reset_progress numbers s))) = length ns
      \<and> length (sendingLogs (send_loop f m ns (reset_progress numbers s))) = length ns" for ns
  proof -
    define sk where "sk = send_loop f m ns (reset_progress numbers s)"
    from send_loop_counts [of f m ns "reset_progress numbers s"] obtain ls where
      ls: "sendingLogs sk = ls" "map log_number ls = ns"
        "sendingProgress sk = \<lparr>total = length numbers, sent = length (filter is_sent ls),
             failed = length (filter (\<lambda>l. \<not> is_sent l) ls)\<rparr>"
      unfolding sk_def by (auto simp: reset_progress_simps)
    from ls(2) have "length ls = length ns"
      by (metis length_map)
    with ls(1,3) sum_length_filter_compl [of is_sent ls] show ?thesis
      unfolding sk_def [symmetric] by simp
  qed
  have 1: "k \<le> length numbers \<longrightarrow>
      (let sk = send_loop f m (take k numbers) (reset_progress numbers s);
           p = sendingProgress sk
       in total p = length numbers \<and> sent p + failed p = k \<and> sent p + failed p \<le> total p
          \<and> length (sendingLogs sk) = sent p + failed p)"
    using loop [of "take k numbers"] by (simp add: Let_def)
  have 2: "let p = sendingProgress s; s' = attempt f m n s; p' = sendingProgress s'
       in total p' = total p
          \<and> (sent p' = sent p + 1 \<and> failed p' = failed p \<or> sent p' = sent p \<and> failed p' = failed p + 1)
          \<and> length (sendingLogs s') = length (sendingLogs s) + 1"
    using attempt_outcome [of f m n s] unfolding Let_def by (elim disjE conjE) simp_all
  have 3: "let p = sendingProgress (send_loop f m numbers (reset_progress numbers s))
       in sent p + failed p = total p"
    using loop [of numbers] by (simp add: Let_def)
  from 1 2 3 show ?thesis by blast
qed

theorem send_loop_keeps_counters_in_step_witness:
  "(2::nat) \<le> length [''255700000001'', ''255700000002'', ''255700000003'']
   \<and> sent (sendingProgress (send_loop second_call_throws ''hello''
              (take 2 [''255700000001'', ''255700000002'', ''255700000003''])
              (reset_progress [''255700000001'', ''255700000002'', ''255700000003''] connected_server)))
     + failed (sendingProgress (send_loop second_call_throws ''hello''
              (take 2 [''255700000001'', ''255700000002'', ''255700000003''])
              (reset_progress [''255700000001'', ''255700000002'', ''255700000003''] connected_server)))
     = 2"
  using send_loop_keeps_counters_in_step
    [where k = 2 and numbers = "[''255700000001'', ''255700000002'', ''255700000003'']"
       and f = second_call_throws and m = "''hello''" and s = connected_server, THEN conjunct1]
  by (simp add: Let_def)

section \<open>The dashboard channel\<close>

text \<open>
  C9. An observer that connects is sent exactly four events, one of each name \<open>status\<close>,
  \<open>qr\<close>, \<open>progress\<close> and \<open>logs\<close>, carrying the values the four variables have at that
  moment; values they had earlier are not sent: after a pairing payload was issued and the
  connection then opened, a new observer gets the status \<open>connected\<close> and no pairing
  payload.
\<close>

theorem new_observer_gets_current_snapshot:
  "on_connection s =
     [Status (connectionStatus s), Qr (latestQR s), Progress (sendingProgress s), Logs (sendingLogs s)]
   \<and> map event_name (on_connection s) = [''status'', ''qr'', ''progress'', ''logs'']
   \<and> distinct (map event_name (on_connection s))
   \<and> on_connection (fst (connection_update \<lparr>qr = None, connection = Some Open, loggedOut = False\<rparr>
         (fst (connection_update \<lparr>qr = Some ''pairing-code'', connection = None, loggedOut = False\<rparr>
            (initial_server :: nat server)))))
      = [Status Connected, Qr None, Progress \<lparr>total = 0, sent = 0, failed = 0\<rparr>, Logs []]"
  by (simp add: on_connection_def connection_update_def updateStatus_def updateQR_def
      truthy_def initial_server_def Let_def)

section \<open>Properties of the contact store\<close>

lemma dropWhile_id_hd: "xs \<noteq> [] \<Longrightarrow> \<not> P (hd xs) \<Longrightarrow> dropWhile P xs = xs"
  by (cases xs) simp_all

lemma hd_dropWhile_not: "dropWhile P xs \<noteq> [] \<Longrightarrow> \<not> P (hd (dropWhile P xs))"
  by (simp add: hd_dropWhile)

lemma trim_idem: "trim (trim s) = trim s"
proof (cases "trim s = []")
  case True
  then show ?thesis by (simp add: trim_Nil)
next
  case False
  define a where "a = dropWhile isSpace s"
  define b where "b = dropWhile isSpace (rev a)"
  have t: "trim s = rev b" by (simp add: trim_def a_def b_def)
  with False have b: "b \<noteq> []" by simp
  then have ra: "rev a \<noteq> []" by (auto simp: b_def)
  then have a: "a \<noteq> []" by simp
  have "\<not> isSpace (hd b)" using b unfolding b_def by (rule hd_dropWhile_not)
  then have lastb: "\<not> isSpace (last (rev b))" using b by (simp add: last_rev)
  have "\<not> isSpace (hd a)" using a unfolding a_def by (rule hd_dropWhile_not)
  moreover have "hd (rev b) = hd a"
  proof -
    obtain ys where "rev a = ys @ b" "\<forall>y\<in>set ys. isSpace y"
      unfolding b_def by (metis takeWhile_dropWhile_id set_takeWhileD)
    then have "a = rev b @ rev ys" by (metis rev_append rev_rev_ident)
    with b show ?thesis by simp
  qed
  ultimately have "\<not> isSpace (hd (rev b))" by simp
  then have 1: "dropWhile isSpace (rev b) = rev b" using b by (simp add: dropWhile_id_hd)
  have 2: "dropWhile isSpace b = b"
    using b \<open>\<not> isSpace (hd b)\<close> by (simp add: dropWhile_id_hd)
  show ?thesis unfolding t by (simp add: trim_def 1 2)
qed

lemma find_Some_mem: "x \<in> set xs \<Longrightarrow> P x \<Longrightarrow> find P xs \<noteq> None"
  by (auto simp: find_None_iff)

lemma find_append_eq:
  "find P (xs @ ys) = (case find P xs of None \<Rightarrow> find P ys | Some x \<Rightarrow> Some x)"
  by (induction xs) simp_all

lemma find_replace_first:
  assumes "find (\<lambda>t. set_name t = k) db = Some s" and "set_name s' = k"
  shows "find (\<lambda>t. set_name t = k) (replace_first k s' db) = Some s'"
  using assms by (induction db) (auto split: if_splits)

lemma findOne_name: "findOne db q = Some s \<Longrightarrow> set_name s = trim q"
  by (auto simp: findOne_def find_Some_iff)

lemma findOne_None_names: "findOne db q = None \<Longrightarrow> trim q \<notin> set (map set_name db)"
  by (auto simp: findOne_def find_None_iff)

text \<open>
  Writing back the document a handler obtained by \<open>findOrNew\<close> succeeds for a non-blank
  set name, and the document is then the one found under that name.
\<close>

lemma findOrNew_save:
  assumes "trim q \<noteq> []" and "findOrNew db q = (origin, s)"
  shows "\<exists>db'. save db origin (s\<lparr>contacts := cs\<rparr>) = Some db'
           \<and> findOne db' q = Some (s\<lparr>contacts := cs\<rparr>)"
    and "contacts s = (case findOne db q of None \<Rightarrow> [] | Some t \<Rightarrow> contacts t)"
    and "origin = None \<longleftrightarrow> findOne db q = None"
proof -
  show "contacts s = (case findOne db q of None \<Rightarrow> [] | Some t \<Rightarrow> contacts t)"
    using assms(2) by (auto simp: findOrNew_def new_ContactSet_def split: option.splits)
  show "origin = None \<longleftrightarrow> findOne db q = None"
    using assms(2) by (auto simp: findOrNew_def split: option.splits)
  show "\<exists>db'. save db origin (s\<lparr>contacts := cs\<rparr>) = Some db'
           \<and> findOne db' q = Some (s\<lparr>contacts := cs\<rparr>)"
  proof (cases "findOne db q")
    case None
    with assms(2) have o: "origin = None" and s: "s = new_ContactSet q"
      by (simp_all add: findOrNew_def)
    from None have absent: "trim q \<notin> set (map set_name db)"
      by (rule findOne_None_names)
    from None have "find (\<lambda>t. set_name t = trim q) db = None"
      by (simp add: findOne_def)
    then have "findOne (db @ [s\<lparr>contacts := cs\<rparr>]) q = Some (s\<lparr>contacts := cs\<rparr>)"
      by (simp add: findOne_def find_append_eq s new_ContactSet_def)
    moreover have "save db origin (s\<lparr>contacts := cs\<rparr>) = Some (db @ [s\<lparr>contacts := cs\<rparr>])"
      using absent assms(1) by (simp add: save_def o s new_ContactSet_def)
    ultimately show ?thesis by simp
  next
    case (Some t)
    with assms(2) have o: "origin = Some (set_name t)" and s: "s = t"
      by (auto simp: findOrNew_def)
    from Some have n: "set_name t = trim q"
      by (rule findOne_name)
    from Some have "find (\<lambda>u. set_name u = trim q) db = Some t"
      by (simp add: findOne_def)
    then have "find (\<lambda>u. set_name u = trim q) (replace_first (trim q) (t\<lparr>contacts := cs\<rparr>) db)
        = Some (t\<lparr>contacts := cs\<rparr>)"
      by (rule find_replace_first) (simp add: n)
    then have "findOne (replace_first (trim q) (t\<lparr>contacts := cs\<rparr>) db) q = Some (t\<lparr>contacts := cs\<rparr>)"
      by (simp add: findOne_def)
    moreover have "save db origin (s\<lparr>contacts := cs\<rparr>) = Some (replace_first (trim q) (t\<lparr>contacts := cs\<rparr>) db)"
      using assms(1) by (simp add: save_def o s n)
    ultimately show ?thesis by (simp add: s)
  qed
qed

text \<open>
  C7. In a store whose set names are as the schema stores them (non-empty and trimmed), for
  any two stored sets \<open>A\<close> and \<open>B\<close>, the request to rename \<open>A\<close> to the name of \<open>B\<close> is
  answered with status 409 and the store is returned as it was, so that both sets exist
  afterwards with the names and contacts they had.
\<close>

theorem rename_to_existing_name_conflicts:
  "names_valid db \<and> A \<in> set db \<and> B \<in> set db
     \<longrightarrow> rename_set db (set_name A) (Some (set_name B))
           = (error_response 409 ''Target set name already exists'', db)"
proof
  assume h: "names_valid db \<and> A \<in> set db \<and> B \<in> set db"
  then have B: "set_name B \<noteq> []" "trim (set_name B) = set_name B"
    by (auto simp: names_valid_def list_all_iff)
  have "findOne db (trim (set_name B)) \<noteq> None"
    unfolding findOne_def using h B by (intro find_Some_mem [of B]) simp_all
  then obtain e where "findOne db (trim (set_name B)) = Some e" by auto
  with B show "rename_set db (set_name A) (Some (set_name B))
           = (error_response 409 ''Target set name already exists'', db)"
    by (simp add: rename_set_def)
qed

theorem rename_to_existing_name_conflicts_witness:
  "names_valid two_sets
   \<and> hd two_sets \<in> set two_sets \<and> last two_sets \<in> set two_sets
   \<and> rename_set two_sets ''friends'' (Some ''family'')
       = (error_response 409 ''Target set name already exists'', two_sets)"
proof -
  have h: "names_valid two_sets \<and> hd two_sets \<in> set two_sets \<and> last two_sets \<in> set two_sets"
    by (simp add: names_valid_def two_sets_def trim_def isSpace_def)
  have n: "set_name (hd two_sets) = ''friends''" "set_name (last two_sets) = ''family''"
    by (simp_all add: two_sets_def)
  from rename_to_existing_name_conflicts [of two_sets "hd two_sets" "last two_sets"] h
  have "rename_set two_sets (set_name (hd two_sets)) (Some (set_name (last two_sets)))
       = (error_response 409 ''Target set name already exists'', two_sets)"
    by blast
  with h show ?thesis
    unfolding n by blast
qed

lemma normalizeTZ_not_fixed_empty: "normalizeTZ (Some []) \<noteq> Some []"
  by (simp add: normalizeTZ_def getDigits_def)

lemma add_contact_stored_phone:
  assumes "findOne db setName = Some s" and "c \<in> set (contacts s)"
    and "normalizeTZ phone_field = Some (phone c)" and "phone c \<noteq> []"
  shows "add_contact db setName name_field phone_field
           = (error_response 409 ''Phone already exists in this set'', db)"
proof -
  have "list_ex (\<lambda>d. phone d = phone c) (contacts s)"
    using assms(2) by (auto simp: list_ex_iff)
  with assms show ?thesis
    by (simp add: add_contact_def findOrNew_def truthy_def Let_def)
qed

text \<open>
  C6. For a set whose stored phones are in normalized form, a request to add a contact
  whose phone normalizes to the same value as the phone of a contact of the set is answered
  with status 409, and the store is returned as it was: no contact is added and none is
  changed.
\<close>

theorem add_existing_phone_conflicts:
  "findOne db setName = Some s \<and> c \<in> set (contacts s) \<and> phones_normalized (contacts s)
   \<and> normalizeTZ phone_field = normalizeTZ (Some (phone c))
     \<longrightarrow> add_contact db setName name_field phone_field
           = (error_response 409 ''Phone already exists in this set'', db)"
proof
  assume h: "findOne db setName = Some s \<and> c \<in> set (contacts s) \<and> phones_normalized (contacts s)
   \<and> normalizeTZ phone_field = normalizeTZ (Some (phone c))"
  then have fx: "normalizeTZ (Some (phone c)) = Some (phone c)"
    by (auto simp: phones_normalized_def list_all_iff)
  then have "phone c \<noteq> []"
    using normalizeTZ_not_fixed_empty by auto
  with h fx show "add_contact db setName name_field phone_field
           = (error_response 409 ''Phone already exists in this set'', db)"
    by (intro add_contact_stored_phone [of db setName s c]) simp_all
qed

theorem add_existing_phone_conflicts_witness:
  "findOne three_contacts ''friends'' = Some (hd three_contacts)
   \<and> \<lparr>phone = ''255700000002'', name = ''B''\<rparr> \<in> set (contacts (hd three_contacts))
   \<and> phones_normalized (contacts (hd three_contacts))
   \<and> normalizeTZ (Some ''0700 000 002'') = normalizeTZ (Some ''255700000002'')
   \<and> add_contact three_contacts ''friends'' (Some ''Bee'') (Some ''0700 000 002'')
       = (error_response 409 ''Phone already exists in this set'', three_contacts)"
proof -
  have n: "normalizeTZ (Some ''0700 000 002'') = Some ''255700000002''"
      "normalizeTZ (Some ''255700000001'') = Some ''255700000001''"
      "normalizeTZ (Some ''255700000002'') = Some ''255700000002''"
      "normalizeTZ (Some ''255700000003'') = Some ''255700000003''"
    by (simp_all add: normalizeTZ_def getDigits_def isDigit_def startsWith_def slice_def)
  have h: "findOne three_contacts ''friends'' = Some (hd three_contacts)
     \<and> \<lparr>phone = ''255700000002'', name = ''B''\<rparr> \<in> set (contacts (hd three_contacts))
     \<and> phones_normalized (contacts (hd three_contacts))
     \<and> normalizeTZ (Some ''0700 000 002'') = normalizeTZ (Some (phone \<lparr>phone = ''255700000002'', name = ''B''\<rparr>))"
    using friends_found by (simp add: n phones_normalized_def) (simp add: three_contacts_def n)
  from add_existing_phone_conflicts
    [of three_contacts "''friends''" "hd three_contacts" "\<lparr>phone = ''255700000002'', name = ''B''\<rparr>"
        "Some ''0700 000 002''" "Some ''Bee''"] h
  have "add_contact three_contacts ''friends'' (Some ''Bee'') (Some ''0700 000 002'')
       = (error_response 409 ''Phone already exists in this set'', three_contacts)"
    by blast
  with h show ?thesis
    by simp
qed

section \<open>Properties of saving directory contacts\<close>

lemma push_numbers_spec:
  "\<exists>new. push_numbers nums (stored, E) = (stored @ new, E \<union> set (map phone new))
     \<and> distinct (map phone new)
     \<and> set (map phone new) = valid_numbers nums - E
     \<and> list_all (\<lambda>c. name c = []) new"
proof (induction nums arbitrary: stored E)
  case Nil
  show ?case by (rule exI [of _ "[]"]) (simp add: valid_numbers_def)
next
  case (Cons raw raws)
  show ?case
  proof (cases "normalizeTZ raw")
    case None
    then have v: "valid_numbers (raw # raws) = valid_numbers raws"
      by (auto simp: valid_numbers_def)
    from Cons.IH [of stored E] None show ?thesis
      by (simp add: v)
  next
    case (Some p)
    show ?thesis
    proof (cases "p \<noteq> [] \<and> p \<notin> E")
      case True
      then have v: "valid_numbers (raw # raws) = insert p (valid_numbers raws)"
        using Some by (auto simp: valid_numbers_def)
      from Cons.IH [of "stored @ [\<lparr>phone = p, name = []\<rparr>]" "insert p E"] obtain new where
        new: "push_numbers raws (stored @ [\<lparr>phone = p, name = []\<rparr>], insert p E)
            = ((stored @ [\<lparr>phone = p, name = []\<rparr>]) @ new, insert p E \<union> set (map phone new))"
          "distinct (map phone new)"
          "set (map phone new) = valid_numbers raws - insert p E"
          "list_all (\<lambda>c. name c = []) new"
        by blast
      show ?thesis
        using True Some new
        by (intro exI [of _ "\<lparr>phone = p, name = []\<rparr> # new"]) (auto simp: v)
    next
      case False
      then have v: "valid_numbers (raw # raws) - E = valid_numbers raws - E"
        using Some by (auto simp: valid_numbers_def)
      from False have skip: "push_numbers (raw # raws) (stored, E) = push_numbers raws (stored, E)"
        using Some by auto
      from Cons.IH [of stored E] show ?thesis
        unfolding skip v .
    qed
  qed
qed

lemma google_save_accepted:
  assumes "trim sn \<noteq> []"
  shows "\<exists>new db'. google_save db (Some sn) (Some nums) =
       (ok_response [(''message'', JStr ''Saved''),
                     (''count'', JNum (length ((case findOne db sn of None \<Rightarrow> [] | Some t \<Rightarrow> contacts t) @ new))),
                     (''contacts'', JContacts ((case findOne db sn of None \<Rightarrow> [] | Some t \<Rightarrow> contacts t) @ new))], db')
     \<and> map_option contacts (findOne db' sn) = Some ((case findOne db sn of None \<Rightarrow> [] | Some t \<Rightarrow> contacts t) @ new)
     \<and> distinct (map phone new)
     \<and> set (map phone new) = valid_numbers nums - set (map phone (case findOne db sn of None \<Rightarrow> [] | Some t \<Rightarrow> contacts t))
     \<and> list_all (\<lambda>c. name c = []) new"
proof -
  let ?old = "case findOne db sn of None \<Rightarrow> [] | Some t \<Rightarrow> contacts t"
  from assms have sn: "sn \<noteq> []" by (auto simp: trim_Nil)
  obtain origin s where f: "findOrNew db sn = (origin, s)"
    by (cases "findOrNew db sn")
  have old: "contacts s = ?old"
    using findOrNew_save(2) [OF assms f] .
  from push_numbers_spec [of nums "contacts s" "set (map phone (contacts s))"] obtain new where
    new: "push_numbers nums (contacts s, set (map phone (contacts s)))
           = (contacts s @ new, set (map phone (contacts s)) \<union> set (map phone new))"
      "distinct (map phone new)"
      "set (map phone new) = valid_numbers nums - set (map phone (contacts s))"
      "list_all (\<lambda>c. name c = []) new"
    by blast
  from findOrNew_save(1) [OF assms f, of "contacts s @ new"] obtain db' where
    db': "save db origin (s\<lparr>contacts := contacts s @ new\<rparr>) = Some db'"
      "findOne db' sn = Some (s\<lparr>contacts := contacts s @ new\<rparr>)"
    by blast
  have "google_save db (Some sn) (Some nums) =
       (ok_response [(''message'', JStr ''Saved''),
                     (''count'', JNum (length (contacts s @ new))),
                     (''contacts'', JContacts (contacts s @ new))], db')"
    using sn f new(1) db'(1) by (simp add: google_save_def Let_def)
  with new db'(2) show ?thesis
    unfolding old by (intro exI [of _ new] exI [of _ db']) simp
qed

lemma findOrNew_name: "findOrNew db q = (origin, s) \<Longrightarrow> set_name s = trim q"
  by (auto simp: findOrNew_def new_ContactSet_def findOne_name split: option.splits)

lemma google_save_no_added: "\<not> has_field (fst (google_save db setName numbers)) ''added''"
  by (simp add: google_save_def has_field_def error_response_def ok_response_def Let_def
      split: option.split prod.split)

lemma google_save_ok_only_if:
  assumes "status (fst (google_save db setName numbers)) = 200"
  shows "\<exists>sn nums. setName = Some sn \<and> numbers = Some nums \<and> trim sn \<noteq> []"
proof -
  from assms obtain nums where n: "numbers = Some nums"
    by (cases numbers) (simp_all add: google_save_def error_response_def)
  from assms n obtain sn where sn: "setName = Some sn"
    by (cases setName) (simp_all add: google_save_def error_response_def)
  have "trim sn \<noteq> []"
  proof
    assume blank: "trim sn = []"
    obtain origin s where f: "findOrNew db sn = (origin, s)"
      by (cases "findOrNew db sn")
    from findOrNew_name [OF f] blank have "set_name s = []" by simp
    then have "save db origin (s\<lparr>contacts := cs\<rparr>) = None" for cs
      by (simp add: save_def)
    with assms n sn f show False
      by (simp add: google_save_def error_response_def Let_def split: prod.splits if_splits)
  qed
  with n sn show ?thesis by simp
qed

lemma google_save_ok_iff:
  "(status (fst (google_save db (Some sn) (Some nums))) = 200) = (trim sn \<noteq> [])"
proof
  assume "status (fst (google_save db (Some sn) (Some nums))) = 200"
  from google_save_ok_only_if [OF this] show "trim sn \<noteq> []" by simp
next
  assume "trim sn \<noteq> []"
  from google_save_accepted [OF this, of db nums] show "status (fst (google_save db (Some sn) (Some nums))) = 200"
    by (auto simp: ok_response_def)
qed

text \<open>The earlier handler stores the numbers as they are supplied.\<close>

lemma push_raw_eq:
  "push_raw E nums stored
     = stored @ map (\<lambda>p. \<lparr>phone = p, name = []\<rparr>) (filter (\<lambda>p. p \<notin> set E) nums)"
  by (induction nums arbitrary: stored) simp_all

lemma google_save_server_js_accepted:
  assumes "sn \<noteq> []"
  shows "\<exists>db'. google_save_server_js db (Some sn) (Some nums) =
       (Some (ok_response
          [(''message'', JStr ''Google contacts saved''),
           (''count'', JNum (length (push_raw
              (map phone (case findOne_exact db sn of None \<Rightarrow> [] | Some t \<Rightarrow> contacts t)) nums
              (case findOne_exact db sn of None \<Rightarrow> [] | Some t \<Rightarrow> contacts t)))),
           (''contacts'', JContacts (push_raw
              (map phone (case findOne_exact db sn of None \<Rightarrow> [] | Some t \<Rightarrow> contacts t)) nums
              (case findOne_exact db sn of None \<Rightarrow> [] | Some t \<Rightarrow> contacts t)))]), db')
     \<and> map_option contacts (findOne_exact db' sn)
         = Some (push_raw
              (map phone (case findOne_exact db sn of None \<Rightarrow> [] | Some t \<Rightarrow> contacts t)) nums
              (case findOne_exact db sn of None \<Rightarrow> [] | Some t \<Rightarrow> contacts t))"
proof (cases "findOne_exact db sn")
  case None
  let ?s = "\<lparr>set_name = sn, contacts = push_raw [] nums []\<rparr>"
  from None have absent: "sn \<notin> set (map set_name db)"
    by (auto simp: findOne_exact_def find_None_iff)
  then have sv: "save db None ?s = Some (db @ [?s])"
    using assms by (simp add: save_def)
  from None have "findOne_exact (db @ [?s]) sn = Some ?s"
    by (simp add: findOne_exact_def find_append_eq)
  with None sv assms show ?thesis
    by (simp add: google_save_server_js_def Let_def)
next
  case (Some t)
  then have n: "set_name t = sn"
    by (auto simp: findOne_exact_def find_Some_iff)
  let ?s = "t\<lparr>contacts := push_raw (map phone (contacts t)) nums (contacts t)\<rparr>"
  have sv: "save db (Some (set_name t)) ?s = Some (replace_first sn ?s db)"
    using assms n by (simp add: save_def)
  from Some have "find (\<lambda>u. set_name u = sn) (replace_first sn ?s db) = Some ?s"
    unfolding findOne_exact_def by (rule find_replace_first) (simp add: n)
  then have "findOne_exact (replace_first sn ?s db) sn = Some ?s"
    by (simp add: findOne_exact_def)
  with Some sv assms show ?thesis
    by (simp add: google_save_server_js_def Let_def)
qed

lemma google_save_server_js_no_added:
  "map_option (\<lambda>r. has_field r ''added'') (fst (google_save_server_js db setName numbers))
     \<noteq> Some True"
  by (simp add: google_save_server_js_def has_field_def error_response_def ok_response_def Let_def
      split: option.split prod.split)

lemma google_save_server_js_ok_only_if:
  assumes "map_option status (fst (google_save_server_js db setName numbers)) = Some 200"
  shows "\<exists>sn nums. setName = Some sn \<and> numbers = Some nums \<and> sn \<noteq> []"
proof -
  from assms obtain nums where n: "numbers = Some nums"
    by (cases numbers) (simp_all add: google_save_server_js_def error_response_def)
  from assms n obtain sn where sn: "setName = Some sn"
    by (cases setName) (simp_all add: google_save_server_js_def error_response_def)
  from assms n sn have "sn \<noteq> []"
    by (auto simp: google_save_server_js_def error_response_def)
  with n sn show ?thesis by simp
qed

text \<open>
  C8, as stated: every supplied phone is normalized, entries that fail to normalize or
  repeat a phone are skipped, and the result has an \<open>added\<close> field and a \<open>count\<close> field. The
  later handler answers an accepted request with \<open>message\<close>, \<open>count\<close> and \<open>contacts\<close> only,
  and a request without a set name with status 400 and no \<open>count\<close>. The earlier handler
  (\<open>src/backend/server.js\<close>) stores \<open>0712 345 678\<close> twice and \<open>abc\<close> as they are, although
  the first normalizes to \<open>255712345678\<close> and the second is invalid.
\<close>

theorem directory_save_has_no_added_field:
  "status (fst (google_save three_contacts (Some ''friends'') (Some [Some ''0712345678''])))
     = 200
   \<and> has_field (fst (google_save three_contacts (Some ''friends'') (Some [Some ''0712345678''])))
        ''count''
   \<and> \<not> has_field (fst (google_save three_contacts (Some ''friends'') (Some [Some ''0712345678''])))
        ''added''
   \<and> status (fst (google_save three_contacts None (Some [Some ''0712345678'']))) = 400
   \<and> \<not> has_field (fst (google_save three_contacts None (Some [Some ''0712345678''])))
        ''count''
   \<and> google_save_server_js three_contacts (Some ''friends'')
        (Some [''0712 345 678'', ''0712 345 678'', ''abc''])
       = (Some (ok_response
            [(''message'', JStr ''Google contacts saved''), (''count'', JNum 6),
             (''contacts'', JContacts
                [\<lparr>phone = ''255700000001'', name = ''A''\<rparr>,
                 \<lparr>phone = ''255700000002'', name = ''B''\<rparr>,
                 \<lparr>phone = ''255700000003'', name = ''C''\<rparr>,
                 \<lparr>phone = ''0712 345 678'', name = []\<rparr>,
                 \<lparr>phone = ''0712 345 678'', name = []\<rparr>,
                 \<lparr>phone = ''abc'', name = []\<rparr>])]),
          [\<lparr>set_name = ''friends'',
            contacts =
                [\<lparr>phone = ''255700000001'', name = ''A''\<rparr>,
                 \<lparr>phone = ''255700000002'', name = ''B''\<rparr>,
                 \<lparr>phone = ''255700000003'', name = ''C''\<rparr>,
                 \<lparr>phone = ''0712 345 678'', name = []\<rparr>,
                 \<lparr>phone = ''0712 345 678'', name = []\<rparr>,
                 \<lparr>phone = ''abc'', name = []\<rparr>]\<rparr>])
   \<and> normalizeTZ (Some ''0712 345 678'') = Some ''255712345678''
   \<and> normalizeTZ (Some ''abc'') = None"
  by code_simp

text \<open>
  C8, amended. No result of either handler has an \<open>added\<close> field. A request the later
  handler accepts (status 200: an array of numbers and a non-blank set name) has every
  number passed through \<open>normalizeTZ\<close>, and one nameless contact is appended to the set's
  contacts for each resulting phone that is non-empty and not yet in the set, once each:
  the appended phones are distinct and are exactly the valid phones of the request that the
  set did not have. A request the earlier handler (\<open>src/backend/server.js\<close>) accepts
  (status 200: an array of numbers and a non-empty set name) has every number that is not a
  phone of the set at the start appended as it is, without normalization, in order and as
  often as it occurs. Both answer an accepted request with the fields \<open>message\<close>, \<open>count\<close>
  (the size of the set after the save) and \<open>contacts\<close> (its contacts).
\<close>

theorem directory_save_of_both_handlers:
  "\<not> has_field (fst (google_save db setName numbers)) ''added''
   \<and> map_option (\<lambda>r. has_field r ''added'') (fst (google_save_server_js db setName raws))
       \<noteq> Some True
   \<and> (status (fst (google_save db (Some sn) (Some nums))) = 200) = (trim sn \<noteq> [])
   \<and> (map_option status (fst (google_save_server_js db (Some sn) (Some rs))) = Some 200)
       = (sn \<noteq> [])
   \<and> (status (fst (google_save db setName numbers)) = 200 \<longrightarrow>
        (\<exists>sn nums new db'. setName = Some sn \<and> numbers = Some nums
          \<and> google_save db setName numbers =
              (ok_response
                 [(''message'', JStr ''Saved''),
                  (''count'', JNum (length ((case findOne db sn of None \<Rightarrow> [] | Some t \<Rightarrow> contacts t) @ new))),
                  (''contacts'', JContacts ((case findOne db sn of None \<Rightarrow> [] | Some t \<Rightarrow> contacts t) @ new))],
               db')
          \<and> map_option contacts (findOne db' sn)
              = Some ((case findOne db sn of None \<Rightarrow> [] | Some t \<Rightarrow> contacts t) @ new)
          \<and> distinct (map phone new)
          \<and> set (map phone new)
              = valid_numbers nums
                - set (map phone (case findOne db sn of None \<Rightarrow> [] | Some t \<Rightarrow> contacts t))
          \<and> list_all (\<lambda>c. name c = []) new))
   \<and> (map_option status (fst (google_save_server_js db setName raws)) = Some 200 \<longrightarrow>
        (\<exists>sn nums new db'. setName = Some sn \<and> raws = Some nums
          \<and> new = map (\<lambda>p. \<lparr>phone = p, name = []\<rparr>)
                  (filter (\<lambda>p. p \<notin> set (map phone
                     (case findOne_exact db sn of None \<Rightarrow> [] | Some t \<Rightarrow> contacts t))) nums)
          \<and> google_save_server_js db setName raws =
              (Some (ok_response
                 [(''message'', JStr ''Google contacts saved''),
                  (''count'', JNum (length ((case findOne_exact db sn of None \<Rightarrow> [] | Some t \<Rightarrow> contacts t) @ new))),
                  (''contacts'', JContacts ((case findOne_exact db sn of None \<Rightarrow> [] | Some t \<Rightarrow> contacts t) @ new))]),
               db')
          \<and> map_option contacts (findOne_exact db' sn)
              = Some ((case findOne_exact db sn of None \<Rightarrow> [] | Some t \<Rightarrow> contacts t) @ new)))"
proof (intro conjI impI)
  show "\<not> has_field (fst (google_save db setName numbers)) ''added''"
    by (rule google_save_no_added)
next
  show "map_option (\<lambda>r. has_field r ''added'') (fst (google_save_server_js db setName raws))
       \<noteq> Some True"
    by (rule google_save_server_js_no_added)
next
  show "(status (fst (google_save db (Some sn) (Some nums))) = 200) = (trim sn \<noteq> [])"
    by (rule google_save_ok_iff)
next
  show "(map_option status (fst (google_save_server_js db (Some sn) (Some rs))) = Some 200)
       = (sn \<noteq> [])"
  proof
    assume "map_option status (fst (google_save_server_js db (Some sn) (Some rs))) = Some 200"
    from google_save_server_js_ok_only_if [OF this] show "sn \<noteq> []" by simp
  next
    assume "sn \<noteq> []"
    from google_save_server_js_accepted [OF this, of db rs]
    show "map_option status (fst (google_save_server_js db (Some sn) (Some rs))) = Some 200"
      by (auto simp: ok_response_def)
  qed
next
  assume ok: "status (fst (google_save db setName numbers)) = 200"
  from google_save_ok_only_if [OF ok] obtain sn nums where
    i: "setName = Some sn" "numbers = Some nums" "trim sn \<noteq> []"
    by blast
  from google_save_accepted [OF i(3), of db nums] i(1,2)
  show "\<exists>sn nums new db'. setName = Some sn \<and> numbers = Some nums
          \<and> google_save db setName numbers =
              (ok_response
                 [(''message'', JStr ''Saved''),
                  (''count'', JNum (length ((case findOne db sn of None \<Rightarrow> [] | Some t \<Rightarrow> contacts t) @ new))),
                  (''contacts'', JContacts ((case findOne db sn of None \<Rightarrow> [] | Some t \<Rightarrow> contacts t) @ new))],
               db')
          \<and> map_option contacts (findOne db' sn)
              = Some ((case findOne db sn of None \<Rightarrow> [] | Some t \<Rightarrow> contacts t) @ new)
          \<and> distinct (map phone new)
          \<and> set (map phone new)
              = valid_numbers nums
                - set (map phone (case findOne db sn of None \<Rightarrow> [] | Some t \<Rightarrow> contacts t))
          \<and> list_all (\<lambda>c. name c = []) new"
    by blast
next
  assume ok: "map_option status (fst (google_save_server_js db setName raws)) = Some 200"
  from google_save_server_js_ok_only_if [OF ok] obtain sn nums where
    i: "setName = Some sn" "raws = Some nums" "sn \<noteq> []"
    by blast
  from google_save_server_js_accepted [OF i(3), of db nums] i(1,2)
  show "\<exists>sn nums new db'. setName = Some sn \<and> raws = Some nums
          \<and> new = map (\<lambda>p. \<lparr>phone = p, name = []\<rparr>)
                  (filter (\<lambda>p. p \<notin> set (map phone
                     (case findOne_exact db sn of None \<Rightarrow> [] | Some t \<Rightarrow> contacts t))) nums)
          \<and> google_save_server_js db setName raws =
              (Some (ok_response
                 [(''message'', JStr ''Google contacts saved''),
                  (''count'', JNum (length ((case findOne_exact db sn of None \<Rightarrow> [] | Some t \<Rightarrow> contacts t) @ new))),
                  (''contacts'', JContacts ((case findOne_exact db sn of None \<Rightarrow> [] | Some t \<Rightarrow> contacts t) @ new))]),
               db')
          \<and> map_option contacts (findOne_exact db' sn)
              = Some ((case findOne_exact db sn of None \<Rightarrow> [] | Some t \<Rightarrow> contacts t) @ new)"
    unfolding push_raw_eq by blast
qed

theorem directory_save_of_both_handlers_witness:
  "status (fst (google_save two_sets (Some ''family'')
        (Some [Some ''0700 000 002'', None, Some ''abc'', Some ''0712345678'', Some ''+255 712 345 678''])))
     = 200
   \<and> (\<exists>new db'.
        google_save two_sets (Some ''family'')
          (Some [Some ''0700 000 002'', None, Some ''abc'', Some ''0712345678'', Some ''+255 712 345 678''])
        = (ok_response
             [(''message'', JStr ''Saved''),
              (''count'', JNum (length ((case findOne two_sets ''family'' of None \<Rightarrow> [] | Some t \<Rightarrow> contacts t) @ new))),
              (''contacts'', JContacts ((case findOne two_sets ''family'' of None \<Rightarrow> [] | Some t \<Rightarrow> contacts t) @ new))],
           db')
        \<and> distinct (map phone new))
   \<and> map_option status (fst (google_save_server_js two_sets (Some ''family'')
        (Some [''0700 000 002'', ''abc'', ''abc''])))
     = Some 200
   \<and> (\<exists>db'. map_option contacts (findOne_exact db' ''family'')
        = Some ((case findOne_exact two_sets ''family'' of None \<Rightarrow> [] | Some t \<Rightarrow> contacts t)
                @ map (\<lambda>p. \<lparr>phone = p, name = []\<rparr>)
                    (filter (\<lambda>p. p \<notin> set (map phone
                       (case findOne_exact two_sets ''family'' of None \<Rightarrow> [] | Some t \<Rightarrow> contacts t)))
                     [''0700 000 002'', ''abc'', ''abc''])))"
proof -
  have h1: "status (fst (google_save two_sets (Some ''family'')
        (Some [Some ''0700 000 002'', None, Some ''abc'', Some ''0712345678'', Some ''+255 712 345 678''])))
     = 200"
    by code_simp
  have h2: "map_option status (fst (google_save_server_js two_sets (Some ''family'')
        (Some [''0700 000 002'', ''abc'', ''abc''])))
     = Some 200"
    by code_simp
  note t = directory_save_of_both_handlers
    [where db = two_sets and setName = "Some ''family''"
       and numbers = "Some [Some ''0700 000 002'', None, Some ''abc'', Some ''0712345678'', Some ''+255 712 345 678'']"
       and raws = "Some [''0700 000 002'', ''abc'', ''abc'']"]
  from t h1 have a: "\<exists>new db'.
        google_save two_sets (Some ''family'')
          (Some [Some ''0700 000 002'', None, Some ''abc'', Some ''0712345678'', Some ''+255 712 345 678''])
        = (ok_response
             [(''message'', JStr ''Saved''),
              (''count'', JNum (length ((case findOne two_sets ''family'' of None \<Rightarrow> [] | Some t \<Rightarrow> contacts t) @ new))),
              (''contacts'', JContacts ((case findOne two_sets ''family'' of None \<Rightarrow> [] | Some t \<Rightarrow> contacts t) @ new))],
           db')
        \<and> distinct (map phone new)"
    by blast
  from t h2 have b: "\<exists>db'. map_option contacts (findOne_exact db' ''family'')
        = Some ((case findOne_exact two_sets ''family'' of None \<Rightarrow> [] | Some t \<Rightarrow> contacts t)
                @ map (\<lambda>p. \<lparr>phone = p, name = []\<rparr>)
                    (filter (\<lambda>p. p \<notin> set (map phone
                       (case findOne_exact two_sets ''family'' of None \<Rightarrow> [] | Some t \<Rightarrow> contacts t)))
                     [''0700 000 002'', ''abc'', ''abc'']))"
    by blast
  from h1 h2 a b show ?thesis by blast
qed

section \<open>Properties of the CSV upload\<close>

lemma contact_eta: "\<lparr>phone = phone c, name = name c\<rparr> = (c::contact)"
  by (cases c) simp

lemma push_new_spec:
  "\<exists>new. push_new cs (stored, E, k) = (stored @ new, E \<union> set (map phone new), k + length new)
     \<and> distinct (map phone new)
     \<and> set (map phone new) = set (map phone cs) - E
     \<and> set new \<subseteq> set cs"
proof (induction cs arbitrary: stored E k)
  case Nil
  show ?case by (rule exI [of _ "[]"]) simp
next
  case (Cons c cs)
  show ?case
  proof (cases "phone c \<in> E")
    case True
    from Cons.IH [of stored E k] obtain new where
      new: "push_new cs (stored, E, k) = (stored @ new, E \<union> set (map phone new), k + length new)"
        "distinct (map phone new)" "set (map phone new) = set (map phone cs) - E" "set new \<subseteq> set cs"
      by blast
    show ?thesis
      using True new by (intro exI [of _ new]) auto
  next
    case False
    from Cons.IH [of "stored @ [c]" "insert (phone c) E" "k + 1"] obtain new where
      new: "push_new cs (stored @ [c], insert (phone c) E, k + 1)
           = ((stored @ [c]) @ new, insert (phone c) E \<union> set (map phone new), k + 1 + length new)"
        "distinct (map phone new)" "set (map phone new) = set (map phone cs) - insert (phone c) E"
        "set new \<subseteq> set cs"
      by blast
    show ?thesis
      using False new by (intro exI [of _ "c # new"]) (auto simp: contact_eta)
  qed
qed

lemma normalize_keys_done: "keys_normalized st \<Longrightarrow> normalize_keys row st = st"
  by (simp add: normalize_keys_def)

lemma normalize_keys_flag: "keys_normalized (normalize_keys row st)"
  by (simp add: normalize_keys_def Let_def)

lemma extractFromRow_state: "snd (extractFromRow row st) = normalize_keys row st"
  by (simp add: extractFromRow_def Let_def split: prod.split option.split)

lemma extractFromRow_None:
  "normalizeTZ (fst (candidate row (normalize_keys row st))) = None
     \<Longrightarrow> fst (extractFromRow row st) = None"
  by (cases "candidate row (normalize_keys row st)") (simp add: extractFromRow_def Let_def)

lemma extractFromRow_Some:
  "fst (extractFromRow row st) = Some c
     \<Longrightarrow> normalizeTZ (fst (candidate row (normalize_keys row st))) = Some (phone c) \<and> phone c \<noteq> []"
  by (cases "candidate row (normalize_keys row st)")
    (auto simp: extractFromRow_def Let_def split: option.splits if_splits)

lemma parse_rows_normalized_state:
  "keys_normalized st \<Longrightarrow>
     parse_rows rows st = List.map_filter (\<lambda>row. fst (extractFromRow row st)) rows"
proof (induction rows)
  case Nil
  then show ?case by (simp add: List.map_filter_simps)
next
  case (Cons r rs)
  obtain c st' where e: "extractFromRow r st = (c, st')"
    by (cases "extractFromRow r st")
  with extractFromRow_state [of r st] Cons.prems have "st' = st"
    by (simp add: normalize_keys_done)
  with e Cons show ?case
    by (cases c) (simp_all add: List.map_filter_simps)
qed

lemma extractFromRow_after_keys:
  "fst (extractFromRow r (normalize_keys r st)) = fst (extractFromRow r st)"
  by (simp add: extractFromRow_def normalize_keys_done normalize_keys_flag)

lemma parse_rows_map_filter:
  "parse_rows rows initial_sniff =
     List.map_filter
       (\<lambda>row. fst (extractFromRow row
                 (case rows of [] \<Rightarrow> initial_sniff | r # rs \<Rightarrow> normalize_keys r initial_sniff)))
       rows"
proof (cases rows)
  case Nil
  then show ?thesis by (simp add: List.map_filter_simps)
next
  case (Cons r rs)
  let ?st = "normalize_keys r initial_sniff"
  obtain c st' where e: "extractFromRow r initial_sniff = (c, st')"
    by (cases "extractFromRow r initial_sniff")
  with extractFromRow_state [of r initial_sniff] have st': "st' = ?st"
    by simp
  have c: "fst (extractFromRow r ?st) = c"
    using e extractFromRow_after_keys [of r initial_sniff] by simp
  have "parse_rows rs ?st = List.map_filter (\<lambda>row. fst (extractFromRow row ?st)) rs"
    by (rule parse_rows_normalized_state) (rule normalize_keys_flag)
  with e st' c show ?thesis
    unfolding Cons by (cases c) (simp_all add: List.map_filter_simps)
qed

lemma parse_rows_phones: "phones_normalized (parse_rows rows st)"
proof (induction rows arbitrary: st)
  case Nil
  then show ?case by (simp add: phones_normalized_def)
next
  case (Cons r rs)
  obtain c st' where e: "extractFromRow r st = (c, st')"
    by (cases "extractFromRow r st")
  show ?case
  proof (cases c)
    case None
    with e Cons.IH [of st'] show ?thesis by simp
  next
    case (Some d)
    with e have "fst (extractFromRow r st) = Some d" by simp
    from extractFromRow_Some [OF this] have "normalizeTZ (Some (phone d)) = Some (phone d)"
      by (auto intro: normalizeTZ_result_fixed)
    with e Some Cons.IH [of st'] show ?thesis
      by (simp add: phones_normalized_def)
  qed
qed

lemma upload_no_valid_rows:
  "parse_rows rows initial_sniff = [] \<Longrightarrow>
     upload db setName (Rows rows) = (error_response 400 ''No valid phone numbers found in CSV'', db)"
  by (simp add: upload_def)

lemma upload_accepted:
  assumes "parse_rows rows initial_sniff \<noteq> []" and "trim setName \<noteq> []"
  shows "\<exists>new db'. upload db setName (Rows rows) =
       (ok_response [(''message'', JStr ''Contacts added''),
                     (''added'', JNum (length new)),
                     (''count'', JNum (length ((case findOne db setName of None \<Rightarrow> [] | Some t \<Rightarrow> contacts t) @ new)))], db')
     \<and> map_option contacts (findOne db' setName) = Some ((case findOne db setName of None \<Rightarrow> [] | Some t \<Rightarrow> contacts t) @ new)
     \<and> distinct (map phone new)
     \<and> set (map phone new) = set (map phone (parse_rows rows initial_sniff))
          - set (map phone (case findOne db setName of None \<Rightarrow> [] | Some t \<Rightarrow> contacts t))
     \<and> set new \<subseteq> set (parse_rows rows initial_sniff)"
proof -
  let ?old = "case findOne db setName of None \<Rightarrow> [] | Some t \<Rightarrow> contacts t"
  let ?cs = "parse_rows rows initial_sniff"
  obtain origin s where f: "findOrNew db setName = (origin, s)"
    by (cases "findOrNew db setName")
  have old: "contacts s = ?old"
    using findOrNew_save(2) [OF assms(2) f] .
  from push_new_spec [of ?cs "contacts s" "set (map phone (contacts s))" 0] obtain new where
    new: "push_new ?cs (contacts s, set (map phone (contacts s)), 0)
           = (contacts s @ new, set (map phone (contacts s)) \<union> set (map phone new), 0 + length new)"
      "distinct (map phone new)"
      "set (map phone new) = set (map phone ?cs) - set (map phone (contacts s))"
      "set new \<subseteq> set ?cs"
    by blast
  from findOrNew_save(1) [OF assms(2) f, of "contacts s @ new"] obtain db' where
    db': "save db origin (s\<lparr>contacts := contacts s @ new\<rparr>) = Some db'"
      "findOne db' setName = Some (s\<lparr>contacts := contacts s @ new\<rparr>)"
    by blast
  have "\<not> (length new = 0 \<and> origin = None)"
  proof
    assume a: "length new = 0 \<and> origin = None"
    then have "findOne db setName = None"
      using findOrNew_save(3) [OF assms(2) f] by simp
    then have "contacts s = []" using old by simp
    with new(3) a have "set (map phone ?cs) = {}" by simp
    with assms(1) show False by simp
  qed
  then have "upload db setName (Rows rows) =
       (ok_response [(''message'', JStr ''Contacts added''),
                     (''added'', JNum (length new)),
                     (''count'', JNum (length (contacts s @ new)))], db')"
    using assms(1) f new(1) db'(1) by (auto simp: upload_def Let_def)
  with new db'(2) show ?thesis
    unfolding old by (intro exI [of _ new] exI [of _ db']) simp
qed

text \<open>
  C5. A row whose candidate phone normalizes to invalid yields no contact, and nothing is
  reported for it: the contacts of the batch are the contacts of the rows that yield one, in
  order (the header state being that of the first row). When no row yields a contact the
  upload is answered with status 400 (\<open>No valid phone numbers found in CSV\<close>) and the store
  is unchanged. Otherwise, for a non-blank set name, the upload appends to the contacts of
  the target set (none, when the set is new) contacts of the batch whose phones are
  distinct, are not phones the set already had, and cover every phone of the batch the set
  did not have; it answers with their number as \<open>added\<close> and the size of the set as
  \<open>count\<close>. A file with the lines \<open>John,0712345678\<close> and \<open>0712345678\<close>, uploaded into an
  empty store, leaves exactly one contact, with the phone \<open>255712345678\<close>: both when the
  parser takes the first line as the header (so that the one row is the second line under
  the keys of the first) and when a header line \<open>name,phone\<close> precedes the two lines.
\<close>

theorem csv_ingestion:
  "(normalizeTZ (fst (candidate row (normalize_keys row st))) = None
      \<longrightarrow> fst (extractFromRow row st) = None)
   \<and> parse_rows rows initial_sniff =
       List.map_filter
         (\<lambda>row. fst (extractFromRow row
                   (case rows of [] \<Rightarrow> initial_sniff | r # rs \<Rightarrow> normalize_keys r initial_sniff)))
         rows
   \<and> (parse_rows rows initial_sniff = []
      \<longrightarrow> upload db setName (Rows rows)
          = (error_response 400 ''No valid phone numbers found in CSV'', db))
   \<and> (parse_rows rows initial_sniff \<noteq> [] \<and> trim setName \<noteq> []
      \<longrightarrow> (\<exists>new db'. upload db setName (Rows rows) =
            (ok_response
               [(''message'', JStr ''Contacts added''),
                (''added'', JNum (length new)),
                (''count'', JNum (length ((case findOne db setName of None \<Rightarrow> [] | Some t \<Rightarrow> contacts t) @ new)))],
             db')
          \<and> map_option contacts (findOne db' setName)
              = Some ((case findOne db setName of None \<Rightarrow> [] | Some t \<Rightarrow> contacts t) @ new)
          \<and> distinct (map phone new)
          \<and> set (map phone new)
              = set (map phone (parse_rows rows initial_sniff))
                - set (map phone (case findOne db setName of None \<Rightarrow> [] | Some t \<Rightarrow> contacts t))
          \<and> set new \<subseteq> set (parse_rows rows initial_sniff)))
   \<and> upload [] ''friends'' (Rows [[(''John'', ''0712345678'')]])
       = (ok_response [(''message'', JStr ''Contacts added''), (''added'', JNum 1), (''count'', JNum 1)],
          [\<lparr>set_name = ''friends'', contacts = [\<lparr>phone = ''255712345678'', name = []\<rparr>]\<rparr>])
   \<and> upload [] ''friends''
         (Rows [[(''name'', ''John''), (''phone'', ''0712345678'')], [(''name'', ''0712345678'')]])
       = (ok_response [(''message'', JStr ''Contacts added''), (''added'', JNum 1), (''count'', JNum 1)],
          [\<lparr>set_name = ''friends'', contacts = [\<lparr>phone = ''255712345678'', name = ''John''\<rparr>]\<rparr>])"
proof -
  have ex1: "upload [] ''friends'' (Rows [[(''John'', ''0712345678'')]])
       = (ok_response [(''message'', JStr ''Contacts added''), (''added'', JNum 1), (''count'', JNum 1)],
          [\<lparr>set_name = ''friends'', contacts = [\<lparr>phone = ''255712345678'', name = []\<rparr>]\<rparr>])"
    by code_simp
  have ex2: "upload [] ''friends''
         (Rows [[(''name'', ''John''), (''phone'', ''0712345678'')], [(''name'', ''0712345678'')]])
       = (ok_response [(''message'', JStr ''Contacts added''), (''added'', JNum 1), (''count'', JNum 1)],
          [\<lparr>set_name = ''friends'', contacts = [\<lparr>phone = ''255712345678'', name = ''John''\<rparr>]\<rparr>])"
    by code_simp
  show ?thesis
    using extractFromRow_None [of row st] parse_rows_map_filter [of rows]
      upload_no_valid_rows [of rows db setName] upload_accepted [of rows setName db] ex1 ex2
    by blast
qed

theorem csv_ingestion_witness:
  "normalizeTZ (fst (candidate [(''name'', ''Ann''), (''phone'', ''n/a'')]
        (normalize_keys [(''name'', ''Ann''), (''phone'', ''n/a'')] initial_sniff))) = None
   \<and> fst (extractFromRow [(''name'', ''Ann''), (''phone'', ''n/a'')] initial_sniff) = None
   \<and> parse_rows [[(''name'', ''Ann''), (''phone'', ''n/a'')]] initial_sniff = []
   \<and> upload three_contacts ''friends'' (Rows [[(''name'', ''Ann''), (''phone'', ''n/a'')]])
       = (error_response 400 ''No valid phone numbers found in CSV'', three_contacts)"
proof -
  have h1: "normalizeTZ (fst (candidate [(''name'', ''Ann''), (''phone'', ''n/a'')]
        (normalize_keys [(''name'', ''Ann''), (''phone'', ''n/a'')] initial_sniff))) = None"
    by code_simp
  have h2: "parse_rows [[(''name'', ''Ann''), (''phone'', ''n/a'')]] initial_sniff = []"
    by code_simp
  note t = csv_ingestion
    [of "[(''name'', ''Ann''), (''phone'', ''n/a'')]" initial_sniff
        "[[(''name'', ''Ann''), (''phone'', ''n/a'')]]" three_contacts "''friends''"]
  from t h1 h2 show ?thesis by blast
qed

section \<open>The handlers keep the invariants of the store\<close>

lemma list_all_replace_first:
  "list_all P db \<Longrightarrow> P s \<Longrightarrow> list_all P (replace_first k s db)"
  by (induction db) auto

lemma save_keeps:
  assumes "save db origin s = Some db'" and "list_all P db" and "P s"
  shows "list_all P db'"
  using assms by (auto simp: save_def list_all_replace_first split: if_splits option.splits)

lemma save_name_nonempty: "save db origin s = Some db' \<Longrightarrow> set_name s \<noteq> []"
  by (auto simp: save_def split: if_splits)

lemma findOrNew_keeps:
  assumes "findOrNew db q = (origin, s)" and "list_all P db" and "P (new_ContactSet q)"
  shows "P s"
proof (cases "findOne db q")
  case None
  with assms show ?thesis by (simp add: findOrNew_def)
next
  case (Some t)
  then have "t \<in> set db" by (auto simp: findOne_def find_Some_iff)
  with assms Some show ?thesis by (auto simp: findOrNew_def list_all_iff)
qed

lemma findOrNew_trimmed:
  assumes "findOrNew db q = (origin, s)" and "names_valid db"
  shows "trim (set_name s) = set_name s"
proof -
  have "list_all (\<lambda>s. trim (set_name s) = set_name s) db"
    using assms(2) by (auto simp: names_valid_def list_all_iff)
  from findOrNew_keeps [OF assms(1) this] show ?thesis
    by (simp add: new_ContactSet_def trim_idem)
qed

lemma save_names_valid:
  assumes "save db origin s = Some db'" and "names_valid db" and "trim (set_name s) = set_name s"
  shows "names_valid db'"
  using save_keeps [OF assms(1), of "\<lambda>s. set_name s \<noteq> [] \<and> trim (set_name s) = set_name s"]
    save_name_nonempty [OF assms(1)] assms(2,3)
  by (simp add: names_valid_def)

text \<open>The handlers keep the set names valid.\<close>

lemma upload_names_valid: "names_valid db \<Longrightarrow> names_valid (snd (upload db q file))"
proof -
  assume v: "names_valid db"
  obtain origin s where f: "findOrNew db q = (origin, s)"
    by (cases "findOrNew db q")
  have "names_valid db'" if "save db origin (s\<lparr>contacts := cs\<rparr>) = Some db'" for cs db'
    using save_names_valid [OF that v] findOrNew_trimmed [OF f v] by simp
  with v f show ?thesis
    by (auto simp: upload_def Let_def split: upload_file.splits prod.splits option.splits)
qed

lemma add_contact_names_valid: "names_valid db \<Longrightarrow> names_valid (snd (add_contact db q n p))"
proof -
  assume v: "names_valid db"
  obtain origin s where f: "findOrNew db q = (origin, s)"
    by (cases "findOrNew db q")
  have "names_valid db'" if "save db origin (s\<lparr>contacts := cs\<rparr>) = Some db'" for cs db'
    using save_names_valid [OF that v] findOrNew_trimmed [OF f v] by simp
  with v f show ?thesis
    by (auto simp: add_contact_def Let_def split: prod.splits option.splits)
qed

lemma google_save_names_valid: "names_valid db \<Longrightarrow> names_valid (snd (google_save db q nums))"
proof -
  assume v: "names_valid db"
  have "names_valid db'"
    if "findOrNew db sn = (origin, s)" and "save db origin (s\<lparr>contacts := cs\<rparr>) = Some db'"
    for sn origin s cs db'
    using save_names_valid [OF that(2) v] findOrNew_trimmed [OF that(1) v] by simp
  with v show ?thesis
    by (auto simp: google_save_def Let_def split: prod.splits option.splits)
qed

lemma rename_set_names_valid: "names_valid db \<Longrightarrow> names_valid (snd (rename_set db q nn))"
proof -
  assume v: "names_valid db"
  have "names_valid db'"
    if "save db origin (s\<lparr>set_name := trim (trim n)\<rparr>) = Some db'" for origin s n db'
    using save_names_valid [OF that v] by (simp add: trim_idem)
  with v show ?thesis
    by (auto simp: rename_set_def Let_def split: option.splits)
qed

text \<open>The handlers keep the stored phones in normalized form.\<close>

lemma phones_normalized_append:
  "phones_normalized (xs @ ys) = (phones_normalized xs \<and> phones_normalized ys)"
  by (simp add: phones_normalized_def)

lemma findOrNew_phones:
  assumes "findOrNew db q = (origin, s)" and "list_all (\<lambda>s. phones_normalized (contacts s)) db"
  shows "phones_normalized (contacts s)"
  using findOrNew_keeps [OF assms(1), of "\<lambda>s. phones_normalized (contacts s)"] assms(2)
  by (simp add: new_ContactSet_def phones_normalized_def)

lemma upload_phones_normalized:
  assumes "list_all (\<lambda>s. phones_normalized (contacts s)) db"
  shows "list_all (\<lambda>s. phones_normalized (contacts s)) (snd (upload db q file))"
proof -
  obtain origin s where f: "findOrNew db q = (origin, s)"
    by (cases "findOrNew db q")
  have "list_all (\<lambda>s. phones_normalized (contacts s)) db'"
    if p: "push_new (parse_rows rows initial_sniff) (contacts s, set (map phone (contacts s)), 0) = (stored, E, k)"
      and s: "save db origin (s\<lparr>contacts := stored\<rparr>) = Some db'" for rows stored E k db'
  proof -
    from push_new_spec [of "parse_rows rows initial_sniff" "contacts s" "set (map phone (contacts s))" 0] p
    obtain new where new: "stored = contacts s @ new" "set new \<subseteq> set (parse_rows rows initial_sniff)"
      by auto
    from new(2) parse_rows_phones [of rows initial_sniff] have "phones_normalized new"
      by (auto simp: phones_normalized_def list_all_iff)
    with new(1) findOrNew_phones [OF f assms] have "phones_normalized stored"
      by (simp add: phones_normalized_append)
    with save_keeps [OF s assms] show ?thesis by simp
  qed
  with assms f show ?thesis
    by (auto simp: upload_def Let_def split: upload_file.splits prod.splits option.splits)
qed

lemma add_contact_phones_normalized:
  assumes "list_all (\<lambda>s. phones_normalized (contacts s)) db"
  shows "list_all (\<lambda>s. phones_normalized (contacts s)) (snd (add_contact db q n p))"
proof -
  obtain origin s where f: "findOrNew db q = (origin, s)"
    by (cases "findOrNew db q")
  have "list_all (\<lambda>s. phones_normalized (contacts s)) db'"
    if n: "normalizeTZ p = Some y" "y \<noteq> []"
      and s: "save db origin (s\<lparr>contacts := contacts s @ [\<lparr>phone = y, name = x\<rparr>]\<rparr>) = Some db'"
    for y x db'
  proof -
    from n have "normalizeTZ (Some y) = Some y" by (rule normalizeTZ_result_fixed)
    with findOrNew_phones [OF f assms]
    have "phones_normalized (contacts s @ [\<lparr>phone = y, name = x\<rparr>])"
      by (simp add: phones_normalized_def)
    with save_keeps [OF s assms] show ?thesis by simp
  qed
  with assms f show ?thesis
    by (auto simp: add_contact_def Let_def truthy_def split: prod.splits option.splits)
qed

lemma google_save_phones_normalized:
  assumes "list_all (\<lambda>s. phones_normalized (contacts s)) db"
  shows "list_all (\<lambda>s. phones_normalized (contacts s)) (snd (google_save db q nums))"
proof -
  have "list_all (\<lambda>s. phones_normalized (contacts s)) db'"
    if f: "findOrNew db sn = (origin, s)"
      and p: "push_numbers ns (contacts s, set (map phone (contacts s))) = (stored, E)"
      and s: "save db origin (s\<lparr>contacts := stored\<rparr>) = Some db'" for sn origin s ns stored E db'
  proof -
    from push_numbers_spec [of ns "contacts s" "set (map phone (contacts s))"] p
    obtain new where new: "stored = contacts s @ new"
      "set (map phone new) = valid_numbers ns - set (map phone (contacts s))"
      by auto
    have "normalizeTZ (Some (phone c)) = Some (phone c)" if "c \<in> set new" for c
    proof -
      from that new(2) have "phone c \<in> valid_numbers ns" by auto
      then obtain raw where "normalizeTZ raw = Some (phone c)" "phone c \<noteq> []"
        by (auto simp: valid_numbers_def)
      then show ?thesis by (rule normalizeTZ_result_fixed)
    qed
    then have "phones_normalized new"
      by (simp add: phones_normalized_def list_all_iff)
    with new(1) findOrNew_phones [OF f assms] have "phones_normalized stored"
      by (simp add: phones_normalized_append)
    with save_keeps [OF s assms] show ?thesis by simp
  qed
  with assms show ?thesis
    by (auto simp: google_save_def Let_def split: prod.splits option.splits)
qed

lemma rename_set_phones_normalized:
  assumes "list_all (\<lambda>s. phones_normalized (contacts s)) db"
  shows "list_all (\<lambda>s. phones_normalized (contacts s)) (snd (rename_set db q nn))"
proof -
  have "list_all (\<lambda>s. phones_normalized (contacts s)) db'"
    if "findOne db q = Some s" and s: "save db origin (s\<lparr>set_name := n\<rparr>) = Some db'"
    for origin s n db'
  proof -
    from that(1) have "s \<in> set db" by (auto simp: findOne_def find_Some_iff)
    with assms have "phones_normalized (contacts s)" by (auto simp: list_all_iff)
    with save_keeps [OF s assms] show ?thesis by simp
  qed
  with assms show ?thesis
    by (auto simp: rename_set_def Let_def split: option.splits)
qed

end
